theory Spec2Isabelle
  imports Main
begin

section \<open>Data model of the Halo watcher\<close>

text \<open>
  The watcher (class \<open>HaloWatcher\<close>) polls three remote resources (class announcements,
  user grades, inbox posts), compares each fetched collection with the cached one and
  emits an event for every new item that passes a filter. Identifiers, cookies and
  file paths are JavaScript strings.
\<close>

type_synonym uid = string
type_synonym class_id = string
type_synonym forum_id = string
type_synonym cookie = string
type_synonym filepath = string
type_synonym key = "string list"
type_synonym feedback = string

text \<open>
  A thrown value is told apart only by \<open>e.code === 401\<close>: \<open>Unauthorized\<close> is a thrown
  value whose code is 401, \<open>Failure\<close> is any other thrown value.
\<close>

datatype error = Unauthorized | Failure

text \<open>
  A date-valued field of a fetched object, classified by what \<open>new Date(v).getTime()\<close>
  makes of it: the property is absent (\<open>undefined\<close>), it is \<open>null\<close>, it is a string
  that does not parse as a date, or it is a string that parses to the given number of
  milliseconds since the epoch. \<open>getTime\<close> returns \<open>None\<close> for \<open>NaN\<close>;
  \<open>new Date(null)\<close> is the epoch itself.
\<close>

datatype date_field = Absent | Null | Unparseable | Instant int

fun getTime :: "date_field \<Rightarrow> int option" where
  "getTime Absent = None"
| "getTime Null = Some 0"
| "getTime Unparseable = None"
| "getTime (Instant t) = Some t"

text \<open>The comparison \<open>a > b\<close> of JavaScript numbers where \<open>a\<close> may be \<open>NaN\<close>: false then.\<close>

fun js_gt :: "int option \<Rightarrow> int \<Rightarrow> bool" where
  "js_gt None b = False"
| "js_gt (Some a) b = (a > b)"

text \<open>
  The truthiness \<open>!!v\<close> of a value that is \<open>null\<close> or a string: \<open>null\<close> and the
  empty string are falsy, every other string is truthy.
\<close>

fun js_truthy :: "string option \<Rightarrow> bool" where
  "js_truthy None = False"
| "js_truthy (Some s) = (s \<noteq> [])"

text \<open>
  Every fetched object has an \<open>id\<close>; the three resources extend it with the fields the
  watcher reads. \<open>userLastSeenDate\<close> is \<open>null\<close> or a string, the date-time of the
  moment the user saw the grade when there is one; \<open>status\<close> is the grade's status
  string; \<open>assessment_id\<close> is \<open>grade.assessment.id\<close>.
\<close>

record item =
  item_id :: string

record announcement = item +
  publishDate :: date_field
  startDate :: date_field

record grade = item +
  status :: string
  userLastSeenDate :: "string option"
  assessment_id :: string

record post = item +
  isRead :: bool

record course =
  courseCode :: string
  slugId :: string

section \<open>The difference of two arrays\<close>

text \<open>
  \<open>#locateDifferenceInArrays(a1, a2)\<close>: the ids of \<open>a1\<close> that the set of ids of \<open>a2\<close>
  does not have, in the order of \<open>a1\<close>; then, for each such id, the first object of
  \<open>a1\<close> with that id (\<open>a1.find\<close>) is pushed when there is one.
\<close>

definition locateDifferenceInArrays ::
  "('a item_scheme) list \<Rightarrow> ('b item_scheme) list \<Rightarrow> ('a item_scheme) list" where
  "locateDifferenceInArrays a1 a2 =
     (let id_array = filter (\<lambda>n. n \<notin> set (map item_id a2)) (map item_id a1)
      in foldl (\<lambda>diff_array i.
                  case find (\<lambda>o'. item_id o' = i) a1 of
                    None \<Rightarrow> diff_array
                  | Some found_obj \<Rightarrow> diff_array @ [found_obj])
               [] id_array)"

section \<open>The recency filter of announcements\<close>

text \<open>
  \<open>isRecentAnnouncement\<close>, with the wall-clock time \<open>new Date().getTime()\<close> as the
  parameter \<open>now\<close> (milliseconds since the epoch).
\<close>

definition isRecentAnnouncement :: "int \<Rightarrow> announcement \<Rightarrow> bool" where
  "isRecentAnnouncement now a =
     (let publishTime = getTime (publishDate a);
          startTime = getTime (startDate a);
          threshold = now - 1000 * 60 * 60 * 48
      in js_gt publishTime threshold \<or> js_gt startTime threshold)"

section \<open>The world a tick acts on\<close>

text \<open>
  The requests placed to the remote system through the \<open>Halo\<close> service, in the order in
  which they are placed.
\<close>

datatype request =
    GetClassAnnouncements cookie class_id
  | GetAllGrades cookie string
  | GetUserId cookie
  | GetGradeFeedback cookie string string
  | GetUserInbox cookie
  | GetPostsForInboxForum cookie forum_id

text \<open>
  The events emitted by the watcher: \<open>emit('announcement', announcement)\<close>,
  \<open>emit('grade', feedback)\<close> where the feedback carries the metadata
  \<open>{courseCode, finalGrade, uid, slugId}\<close>, and
  \<open>emit('inbox_message', {...post, metadata: {uid}})\<close>.
\<close>

datatype event =
    AnnouncementEvent announcement
  | GradeEvent feedback course string uid
  | InboxMessageEvent post uid

text \<open>
  The state a watcher reads and writes: its cache (\<open>None\<close> is \<open>null\<close>, the value of a
  key never populated), the cache files on disk (\<open>None\<close>: no file; \<open>Some None\<close>: a file
  holding \<open>null\<close>), the events emitted so far, the users reported to \<open>handle401\<close> and
  the requests placed.
\<close>

record 'a state =
  cache :: "key \<Rightarrow> 'a list option"
  disk :: "filepath \<Rightarrow> 'a list option option"
  events :: "event list"
  reports :: "uid list"
  requests :: "request list"

text \<open>
  Modelled from the spec: \<open>get\<close> and \<open>set\<close> are methods of the cache objects, which are
  not among the sources. The spec has \<open>get\<close> return the snapshot of a key, \<open>null\<close> if it
  was never populated, and \<open>set\<close> replace the value in memory unconditionally. The key
  is the path given to them: \<open>[class_id]\<close>, \<open>[course_id, uid]\<close> or \<open>[uid, forumId]\<close>.
\<close>

definition cache_get :: "'a state \<Rightarrow> key \<Rightarrow> 'a list option" where
  "cache_get st k = cache st k"

definition cache_set :: "key \<Rightarrow> 'a list option \<Rightarrow> 'a state \<Rightarrow> 'a state" where
  "cache_set k v st = st\<lparr>cache := (cache st)(k := v)\<rparr>"

text \<open>
  Modelled from the spec: \<open>writeCacheFile\<close> is a method of the cache objects, which are
  not among the sources. The spec has it write the snapshot to durable storage under a
  path derived from the key, failures being logged and swallowed; the write is taken to
  be done when the call is made.
\<close>

definition writeCacheFile :: "filepath \<Rightarrow> 'a list option \<Rightarrow> 'a state \<Rightarrow> 'a state" where
  "writeCacheFile fp data st = st\<lparr>disk := (disk st)(fp := Some data)\<rparr>"

definition emit :: "event \<Rightarrow> 'a state \<Rightarrow> 'a state" where
  "emit ev st = st\<lparr>events := events st @ [ev]\<rparr>"

text \<open>
  Modelled from the spec: \<open>handle401\<close> is not among the sources. The spec has an
  unauthorized credential reported, with the user, to the credential collaborator.
\<close>

definition handle401 :: "uid \<Rightarrow> 'a state \<Rightarrow> 'a state" where
  "handle401 u st = st\<lparr>reports := reports st @ [u]\<rparr>"

definition place :: "request \<Rightarrow> 'a state \<Rightarrow> 'a state" where
  "place r st = st\<lparr>requests := requests st @ [r]\<rparr>"

text \<open>
  What a tick finds outside the watcher: the wall clock, the directory and the credential
  store (\<open>Firebase\<close>) and the remote system (\<open>Halo\<close>). A call either returns (\<open>Inr\<close>) or
  throws (\<open>Inl\<close>); within one tick a call with the same arguments has the same
  outcome. \<open>getActiveClasses\<close> gives the entries of the object of active classes,
  \<open>getUserCookie\<close> gives \<open>null\<close> (\<open>None\<close>) for a user without a valid cookie, and
  \<open>getUserInbox\<close> gives the pairs \<open>{forumId, unreadCount}\<close>.
\<close>

record env =
  now :: int
  getActiveClasses :: "error + (class_id \<times> course) list"
  getActiveUsersInClass :: "class_id \<Rightarrow> uid list"
  getAllActiveUsers :: "error + uid list"
  getUserCookie :: "uid \<Rightarrow> error + cookie option"
  getClassAnnouncements :: "cookie \<Rightarrow> class_id \<Rightarrow> error + announcement list"
  getAllGrades :: "cookie \<Rightarrow> string \<Rightarrow> error + grade list \<times> string"
  getUserId :: "cookie \<Rightarrow> error + string"
  getGradeFeedback :: "cookie \<Rightarrow> string \<Rightarrow> string \<Rightarrow> error + feedback"
  getUserInbox :: "cookie \<Rightarrow> error + (forum_id \<times> int) list"
  getPostsForInboxForum :: "cookie \<Rightarrow> forum_id \<Rightarrow> error + post list"

text \<open>
  The handler shared by \<open>getClassAnnouncementsSafe\<close>, the grades watcher and the inbox
  watcher: a 401 is handed to \<open>handle401\<close> with the user, anything else is logged.
\<close>

definition catchFetchError :: "error \<Rightarrow> uid \<Rightarrow> 'a state \<Rightarrow> 'a state" where
  "catchFetchError e u st = (case e of Unauthorized \<Rightarrow> handle401 u st | Failure \<Rightarrow> st)"

section \<open>The announcements watcher\<close>

text \<open>
  \<open>getClassAnnouncementsSafe\<close>: the users of the class are tried in order; a user with no
  cookie is passed over, a user whose fetch throws is handled and passed over, and the
  first fetch that returns ends the loop (\<open>Halo.getClassAnnouncements\<close> returns an array,
  which is truthy). \<open>None\<close> is the \<open>null\<close> returned when no user yields a result.
\<close>

fun getClassAnnouncementsSafe ::
  "env \<Rightarrow> class_id \<Rightarrow> uid list \<Rightarrow> announcement state
     \<Rightarrow> announcement list option \<times> announcement state" where
  "getClassAnnouncementsSafe E class_id [] st = (None, st)"
| "getClassAnnouncementsSafe E class_id (u # active_users) st =
     (case getUserCookie E u of
        Inl e \<Rightarrow> getClassAnnouncementsSafe E class_id active_users (catchFetchError e u st)
      | Inr None \<Rightarrow> getClassAnnouncementsSafe E class_id active_users st
      | Inr (Some ck) \<Rightarrow>
          (case getClassAnnouncements E ck class_id of
             Inl e \<Rightarrow> getClassAnnouncementsSafe E class_id active_users
                        (catchFetchError e u (place (GetClassAnnouncements ck class_id) st))
           | Inr announcements \<Rightarrow>
               (Some announcements, place (GetClassAnnouncements ck class_id) st)))"

text \<open>The loop that emits the recent ones among the new announcements.\<close>

definition emitAnnouncements :: "env \<Rightarrow> announcement list \<Rightarrow> announcement state \<Rightarrow> announcement state" where
  "emitAnnouncements E anns st =
     foldl (\<lambda>s a. if isRecentAnnouncement (now E) a then emit (AnnouncementEvent a) s else s) st anns"

text \<open>
  The body of the \<open>try\<close> block for one class: the state it leaves and the value thrown,
  if any. Reading \<open>length\<close> of \<open>null\<close> throws a TypeError.
\<close>

definition announcementsBody ::
  "env \<Rightarrow> class_id \<times> course \<Rightarrow> announcement state \<Rightarrow> announcement state \<times> error option" where
  "announcementsBody E entry st =
     (let class_id = fst entry;
          active_users = getActiveUsersInClass E class_id
      in if active_users = [] then (st, None)
         else
           let old_announcements = cache_get st [class_id];
               fetched = getClassAnnouncementsSafe E class_id active_users st;
               new_announcements = (case fst fetched of Some a \<Rightarrow> Some a | None \<Rightarrow> old_announcements);
               st1 = cache_set [class_id] new_announcements (snd fetched)
           in (case old_announcements of
                 None \<Rightarrow> (writeCacheFile class_id new_announcements st1, None)
               | Some old \<Rightarrow>
                  (case new_announcements of
                     None \<Rightarrow> (st1, Some Failure)
                   | Some new \<Rightarrow>
                       if length new = length old then (st1, None)
                       else (emitAnnouncements E (locateDifferenceInArrays new old)
                               (writeCacheFile class_id new_announcements st1), None))))"

text \<open>The \<open>try\<close> with its \<open>catch\<close>, which only logs.\<close>

definition tryAnnouncements :: "env \<Rightarrow> announcement state \<Rightarrow> class_id \<times> course \<Rightarrow> announcement state" where
  "tryAnnouncements E st entry = fst (announcementsBody E entry st)"

definition watchForAnnouncements :: "env \<Rightarrow> announcement state \<Rightarrow> announcement state \<times> error option" where
  "watchForAnnouncements E st =
     (case getActiveClasses E of
        Inl e \<Rightarrow> (st, Some e)
      | Inr COURSES \<Rightarrow> (foldl (tryAnnouncements E) st COURSES, None))"

section \<open>The grades watcher\<close>

text \<open>
  The loop over the new grades. A grade whose \<open>userLastSeenDate\<close> is truthy
  (\<open>!!grade.userLastSeenDate\<close>) is passed over: the user has already seen it. For
  the others the arguments of \<open>Halo.getGradeFeedback\<close> are evaluated first, among them
  \<open>await Halo.getUserId({ cookie })\<close>, then the feedback is fetched and emitted. Either
  call may throw; nothing in the loop catches, so the loop ends there.
\<close>

fun emitGrades ::
  "env \<Rightarrow> cookie \<Rightarrow> course \<Rightarrow> uid \<Rightarrow> string \<Rightarrow> grade list \<Rightarrow> grade state
     \<Rightarrow> grade state \<times> error option" where
  "emitGrades E ck crs u finalGrade [] st = (st, None)"
| "emitGrades E ck crs u finalGrade (g # gs) st =
     (if js_truthy (userLastSeenDate g) then emitGrades E ck crs u finalGrade gs st
      else
        let st1 = place (GetUserId ck) st
        in (case getUserId E ck of
              Inl e \<Rightarrow> (st1, Some e)
            | Inr halo_uid \<Rightarrow>
                (let st2 = place (GetGradeFeedback ck (assessment_id g) halo_uid) st1
                 in (case getGradeFeedback E ck (assessment_id g) halo_uid of
                       Inl e \<Rightarrow> (st2, Some e)
                     | Inr fb \<Rightarrow>
                         emitGrades E ck crs u finalGrade gs
                           (emit (GradeEvent fb crs finalGrade u) st2)))))"

text \<open>The body of the \<open>try\<close> block for one user of one course.\<close>

definition gradesBody ::
  "env \<Rightarrow> class_id \<times> course \<Rightarrow> uid \<Rightarrow> grade state \<Rightarrow> grade state \<times> error option" where
  "gradesBody E entry u st =
     (let course_id = fst entry; crs = snd entry
      in (case getUserCookie E u of
            Inl e \<Rightarrow> (st, Some e)
          | Inr None \<Rightarrow> (st, None)
          | Inr (Some ck) \<Rightarrow>
              (let old_grades = cache_get st [course_id, u];
                   st1 = place (GetAllGrades ck (slugId crs)) st
               in (case getAllGrades E ck (slugId crs) of
                     Inl e \<Rightarrow> (st1, Some e)
                   | Inr res \<Rightarrow>
                       (let grades = fst res; finalGrade = snd res;
                            new_grades = filter (\<lambda>g. status g = ''PUBLISHED'') grades;
                            st2 = cache_set [course_id, u] (Some new_grades) st1;
                            fp = course_id @ ''/'' @ u @ ''.json''
                        in (case old_grades of
                              None \<Rightarrow> (writeCacheFile fp (Some new_grades) st2, None)
                            | Some old \<Rightarrow>
                                if length new_grades = length old then (st2, None)
                                else emitGrades E ck crs u finalGrade
                                       (locateDifferenceInArrays new_grades old)
                                       (writeCacheFile fp (Some new_grades) st2)))))))"

definition tryGrades :: "env \<Rightarrow> class_id \<times> course \<Rightarrow> grade state \<Rightarrow> uid \<Rightarrow> grade state" where
  "tryGrades E entry st u =
     (case gradesBody E entry u st of
        (st', None) \<Rightarrow> st'
      | (st', Some e) \<Rightarrow> catchFetchError e u st')"

definition gradesCourse :: "env \<Rightarrow> grade state \<Rightarrow> class_id \<times> course \<Rightarrow> grade state" where
  "gradesCourse E st entry = foldl (tryGrades E entry) st (getActiveUsersInClass E (fst entry))"

definition watchForGrades :: "env \<Rightarrow> grade state \<Rightarrow> grade state \<times> error option" where
  "watchForGrades E st =
     (case getActiveClasses E of
        Inl e \<Rightarrow> (st, Some e)
      | Inr COURSES \<Rightarrow> (foldl (gradesCourse E) st COURSES, None))"

section \<open>The inbox watcher\<close>

definition getUnreadMessagesCount :: "post state \<Rightarrow> uid \<Rightarrow> forum_id \<Rightarrow> nat" where
  "getUnreadMessagesCount st u forumId =
     length (filter (\<lambda>p. \<not> isRead p)
               (case cache_get st [u, forumId] of None \<Rightarrow> [] | Some ps \<Rightarrow> ps))"

definition emitInboxMessages :: "uid \<Rightarrow> post list \<Rightarrow> post state \<Rightarrow> post state" where
  "emitInboxMessages u ps st =
     foldl (\<lambda>s p. if isRead p then s else emit (InboxMessageEvent p u) s) st ps"

text \<open>
  One turn of the loop over the forums of a user: the state it leaves and the value
  thrown, if any. \<open>!unreadCount\<close> holds of the number 0 only.
\<close>

definition inboxForum ::
  "env \<Rightarrow> uid \<Rightarrow> cookie \<Rightarrow> forum_id \<times> int \<Rightarrow> post state \<Rightarrow> post state \<times> error option" where
  "inboxForum E u ck forum st =
     (let forumId = fst forum; unreadCount = snd forum;
          old_inbox_posts = cache_get st [u, forumId]
      in if old_inbox_posts \<noteq> None \<and>
            (unreadCount = 0 \<or> unreadCount = int (getUnreadMessagesCount st u forumId))
         then (st, None)
         else
           let st1 = place (GetPostsForInboxForum ck forumId) st
           in (case getPostsForInboxForum E ck forumId of
                 Inl e \<Rightarrow> (st1, Some e)
               | Inr new_inbox_posts \<Rightarrow>
                   (let st2 = cache_set [u, forumId] (Some new_inbox_posts) st1;
                        fp = u @ ''/'' @ forumId @ ''.json''
                    in (case old_inbox_posts of
                          None \<Rightarrow> (writeCacheFile fp (Some new_inbox_posts) st2, None)
                        | Some old \<Rightarrow>
                            if length new_inbox_posts = length old then (st2, None)
                            else (emitInboxMessages u
                                    (locateDifferenceInArrays new_inbox_posts old)
                                    (writeCacheFile fp (Some new_inbox_posts) st2), None)))))"

text \<open>The loop over the forums has no \<open>try\<close> of its own: a thrown value ends it.\<close>

fun inboxForums ::
  "env \<Rightarrow> uid \<Rightarrow> cookie \<Rightarrow> (forum_id \<times> int) list \<Rightarrow> post state \<Rightarrow> post state \<times> error option" where
  "inboxForums E u ck [] st = (st, None)"
| "inboxForums E u ck (f # fs) st =
     (case inboxForum E u ck f st of
        (st', Some e) \<Rightarrow> (st', Some e)
      | (st', None) \<Rightarrow> inboxForums E u ck fs st')"

text \<open>The body of the \<open>try\<close> block for one user.\<close>

definition inboxBody :: "env \<Rightarrow> uid \<Rightarrow> post state \<Rightarrow> post state \<times> error option" where
  "inboxBody E u st =
     (case getUserCookie E u of
        Inl e \<Rightarrow> (st, Some e)
      | Inr None \<Rightarrow> (st, None)
      | Inr (Some ck) \<Rightarrow>
          (let st1 = place (GetUserInbox ck) st
           in (case getUserInbox E ck of
                 Inl e \<Rightarrow> (st1, Some e)
               | Inr forums \<Rightarrow> inboxForums E u ck forums st1)))"

definition tryInbox :: "env \<Rightarrow> post state \<Rightarrow> uid \<Rightarrow> post state" where
  "tryInbox E st u =
     (case inboxBody E u st of
        (st', None) \<Rightarrow> st'
      | (st', Some e) \<Rightarrow> catchFetchError e u st')"

definition watchForInboxMessages :: "env \<Rightarrow> post state \<Rightarrow> post state \<times> error option" where
  "watchForInboxMessages E st =
     (case getAllActiveUsers E of
        Inl e \<Rightarrow> (st, Some e)
      | Inr ACTIVE_USERS \<Rightarrow> (foldl (tryInbox E) st ACTIVE_USERS, None))"

section \<open>Where a grade event comes from\<close>


section \<open>What a tick leaves behind\<close>

text \<open>
  Two states have the same view when their caches, their disks and their events are the
  same; they may differ in the requests placed and in the users reported. They have the
  same view except for a file when their disks may differ at that one path as well.
\<close>

abbreviation sameView :: "'a state \<Rightarrow> 'a state \<Rightarrow> bool" where
  "sameView s t \<equiv> cache s = cache t \<and> disk s = disk t \<and> events s = events t"

abbreviation sameViewExcept :: "filepath \<Rightarrow> 'a state \<Rightarrow> 'a state \<Rightarrow> bool" where
  "sameViewExcept c s t \<equiv>
     cache s = cache t \<and> events s = events t \<and> (\<forall>p. p \<noteq> c \<longrightarrow> disk s p = disk t p)"

section \<open>Concrete scenarios\<close>

text \<open>The empty state, a fixed wall-clock time and an environment in which nothing is active.\<close>

definition st0 :: "'a state" where
  "st0 = \<lparr>cache = (\<lambda>k. None), disk = (\<lambda>p. None), events = [], reports = [], requests = []\<rparr>"

definition quiet :: env where
  "quiet = \<lparr>now = 1700000000000, getActiveClasses = Inr [], getActiveUsersInClass = (\<lambda>c. []),
     getAllActiveUsers = Inr [], getUserCookie = (\<lambda>u. Inr None),
     getClassAnnouncements = (\<lambda>ck c. Inl Failure), getAllGrades = (\<lambda>ck s. Inl Failure),
     getUserId = (\<lambda>ck. Inl Failure), getGradeFeedback = (\<lambda>ck a h. Inl Failure),
     getUserInbox = (\<lambda>ck. Inl Failure), getPostsForInboxForum = (\<lambda>ck f. Inl Failure)\<rparr>"

definition cs101 :: course where
  "cs101 = \<lparr>courseCode = ''CS101'', slugId = ''cs101''\<rparr>"

text \<open>A state whose cache holds one snapshot.\<close>

definition cached :: "key \<Rightarrow> 'a list \<Rightarrow> 'a state" where
  "cached k xs = st0\<lparr>cache := (\<lambda>k'. if k' = k then Some xs else None)\<rparr>"

text \<open>
  One active class \<open>c1\<close> with one active user \<open>u1\<close>, whose cookie is \<open>k1\<close>; the
  fetch of the announcements of the class has the given outcome.
\<close>

definition env_announcements :: "error + announcement list \<Rightarrow> env" where
  "env_announcements r = quiet\<lparr>getActiveClasses := Inr [(''c1'', cs101)],
      getActiveUsersInClass := (\<lambda>c. [''u1'']),
      getUserCookie := (\<lambda>u. Inr (Some ''k1'')),
      getClassAnnouncements := (\<lambda>ck c. r)\<rparr>"

text \<open>
  The same class and user for the grades watcher: the fetch of the grades has the given
  outcome, the user's remote id is \<open>h1\<close> and the feedback of an assessment is given by
  the second argument.
\<close>

definition env_grades :: "error + grade list \<times> string \<Rightarrow> (string \<Rightarrow> error + feedback) \<Rightarrow> env" where
  "env_grades r fb = quiet\<lparr>getActiveClasses := Inr [(''c1'', cs101)],
      getActiveUsersInClass := (\<lambda>c. [''u1'']),
      getUserCookie := (\<lambda>u. Inr (Some ''k1'')),
      getAllGrades := (\<lambda>ck s. r),
      getUserId := (\<lambda>ck. Inr ''h1''),
      getGradeFeedback := (\<lambda>ck a h. fb a)\<rparr>"

text \<open>
  One active user \<open>u1\<close> with cookie \<open>k1\<close> for the inbox watcher: the inbox lists the
  given forums and the posts of a forum are given by the second argument.
\<close>

definition env_inbox :: "(forum_id \<times> int) list \<Rightarrow> (forum_id \<Rightarrow> error + post list) \<Rightarrow> env" where
  "env_inbox forums posts = quiet\<lparr>getAllActiveUsers := Inr [''u1''],
      getUserCookie := (\<lambda>u. Inr (Some ''k1'')),
      getUserInbox := (\<lambda>ck. Inr forums),
      getPostsForInboxForum := (\<lambda>ck f. posts f)\<rparr>"

definition announcement_undated :: announcement where
  "announcement_undated = \<lparr>item_id = ''a9'', publishDate = Absent, startDate = Unparseable\<rparr>"

definition announcement_fresh :: announcement where
  "announcement_fresh = \<lparr>item_id = ''a1'', publishDate = Instant 1699996400000, startDate = Absent\<rparr>"

definition grade1 :: grade where
  "grade1 = \<lparr>item_id = ''g1'', status = ''PUBLISHED'', userLastSeenDate = None, assessment_id = ''as1''\<rparr>"

definition grade2 :: grade where
  "grade2 = \<lparr>item_id = ''g2'', status = ''PUBLISHED'', userLastSeenDate = None, assessment_id = ''as2''\<rparr>"


definition grade_draft :: grade where
  "grade_draft = \<lparr>item_id = ''g4'', status = ''DRAFT'', userLastSeenDate = None, assessment_id = ''as4''\<rparr>"


definition announcement_stale :: announcement where
  "announcement_stale = \<lparr>item_id = ''a2'', publishDate = Instant 1699823600000,
      startDate = Instant 1699823600000\<rparr>"

definition post_unread :: post where
  "post_unread = \<lparr>item_id = ''p1'', isRead = False\<rparr>"

definition post_read :: post where
  "post_read = \<lparr>item_id = ''p2'', isRead = True\<rparr>"

definition cs102 :: course where
  "cs102 = \<lparr>courseCode = ''CS102'', slugId = ''cs102''\<rparr>"

text \<open>
  Two classes with one user each, and the two users: every fetch made with the cookie
  \<open>k1\<close> of the first user fails, every fetch made with the cookie \<open>k2\<close> of the second
  user returns.
\<close>

definition env_mixed :: env where
  "env_mixed = quiet\<lparr>getActiveClasses := Inr [(''c1'', cs101), (''c2'', cs102)],
      getActiveUsersInClass := (\<lambda>c. if c = ''c1'' then [''u1''] else [''u2'']),
      getAllActiveUsers := Inr [''u1'', ''u2''],
      getUserCookie := (\<lambda>u. Inr (Some (if u = ''u1'' then ''k1'' else ''k2''))),
      getClassAnnouncements :=
        (\<lambda>ck c. if ck = ''k1'' then Inl Unauthorized else Inr [announcement_fresh]),
      getAllGrades := (\<lambda>ck s. if ck = ''k1'' then Inl Unauthorized else Inr ([grade1], ''A'')),
      getUserId := (\<lambda>ck. Inr ''h2''),
      getGradeFeedback := (\<lambda>ck a h. Inr ''well done''),
      getUserInbox := (\<lambda>ck. if ck = ''k1'' then Inl Failure else Inr [(''f1'', 1)]),
      getPostsForInboxForum := (\<lambda>ck f. Inr [post_unread])\<rparr>"

text \<open>
  The reading of "within the last 48 hours of wall-clock time" that the spec's words give:
  after the moment 48 hours before now, and not after now.
\<close>

definition spec_withinLast48Hours :: "int \<Rightarrow> int \<Rightarrow> bool" where
  "spec_withinLast48Hours clock t = (clock - 48 * 3600000 < t \<and> t \<le> clock)"

section \<open>Properties of the difference of two arrays\<close>

lemma foldl_push:
  "foldl (\<lambda>diff_array i. case f i of None \<Rightarrow> diff_array
                                     | Some found_obj \<Rightarrow> diff_array @ [found_obj]) acc ids
     = acc @ List.map_filter f ids"
  by (induction ids arbitrary: acc) (auto split: option.splits)

lemma locateDifferenceInArrays_map_filter:
  "locateDifferenceInArrays a1 a2 =
     List.map_filter (\<lambda>i. find (\<lambda>o'. item_id o' = i) a1)
       (filter (\<lambda>n. n \<notin> set (map item_id a2)) (map item_id a1))"
  unfolding locateDifferenceInArrays_def Let_def foldl_push by simp

lemma find_by_id_Some:
  "i \<in> set (map item_id a1) \<Longrightarrow>
   \<exists>x. find (\<lambda>o'. item_id o' = i) a1 = Some x \<and> item_id x = i \<and> x \<in> set a1"
  by (induction a1) auto

lemma find_by_id_distinct:
  "distinct (map item_id a1) \<Longrightarrow> x \<in> set a1 \<Longrightarrow>
   find (\<lambda>o'. item_id o' = item_id x) a1 = Some x"
  by (induction a1) (auto simp: rev_image_eqI)

lemma map_filter_find_ids:
  "set ids \<subseteq> set (map item_id a1) \<Longrightarrow>
   map item_id (List.map_filter (\<lambda>i. find (\<lambda>o'. item_id o' = i) a1) ids) = ids"
proof (induction ids)
  case Nil
  then show ?case by simp
next
  case (Cons i ids)
  then obtain x where "find (\<lambda>o'. item_id o' = i) a1 = Some x" "item_id x = i"
    using find_by_id_Some[of i a1] by auto
  with Cons show ?case by simp
qed

lemma map_filter_find_subset:
  "set (List.map_filter (\<lambda>i. find (\<lambda>o'. item_id o' = i) a1) ids) \<subseteq> set a1"
proof (induction ids)
  case Nil
  then show ?case by simp
next
  case (Cons i ids)
  then show ?case
    by (auto simp: find_Some_iff split: option.splits)
qed

lemma map_filter_find_distinct:
  "distinct (map item_id a1) \<Longrightarrow> set xs \<subseteq> set a1 \<Longrightarrow>
   List.map_filter (\<lambda>i. find (\<lambda>o'. item_id o' = i) a1) (map item_id xs) = xs"
  by (induction xs) (auto simp: find_by_id_distinct)

lemma diff_ids:
  "map item_id (locateDifferenceInArrays a1 a2)
     = filter (\<lambda>n. n \<notin> set (map item_id a2)) (map item_id a1)"
  unfolding locateDifferenceInArrays_map_filter
  by (rule map_filter_find_ids) auto

lemma diff_subset: "set (locateDifferenceInArrays a1 a2) \<subseteq> set a1"
  unfolding locateDifferenceInArrays_map_filter by (rule map_filter_find_subset)

lemma diff_distinct:
  assumes "distinct (map item_id a1)"
  shows "locateDifferenceInArrays a1 a2 = filter (\<lambda>x. item_id x \<notin> set (map item_id a2)) a1"
proof -
  have "filter (\<lambda>n. n \<notin> set (map item_id a2)) (map item_id a1)
        = map item_id (filter (\<lambda>x. item_id x \<notin> set (map item_id a2)) a1)"
    by (simp add: filter_map comp_def)
  then show ?thesis
    unfolding locateDifferenceInArrays_map_filter
    using map_filter_find_distinct[OF assms, of "filter (\<lambda>x. item_id x \<notin> set (map item_id a2)) a1"]
    by simp
qed

lemma count_list_distinct: "distinct xs \<Longrightarrow> x \<in> set xs \<Longrightarrow> count_list xs x = 1"
  by (induction xs) auto

text \<open>
  Claim C2, as stated, fails when two objects of the new array share an id: the id is
  looked up with \<open>find\<close>, which gives the first object with that id both times. With
  two posts of id \<open>1\<close> and an empty old array the first post is returned twice and the
  second not at all, though its id is absent from the old array.
\<close>

theorem locateDifferenceInArrays_duplicate_ids:
  "locateDifferenceInArrays
      [\<lparr>item_id = ''1'', isRead = False\<rparr>, \<lparr>item_id = ''1'', isRead = True\<rparr>] ([] :: post list)
     = [\<lparr>item_id = ''1'', isRead = False\<rparr>, \<lparr>item_id = ''1'', isRead = False\<rparr>]
   \<and> count_list (locateDifferenceInArrays
        [\<lparr>item_id = ''1'', isRead = False\<rparr>, \<lparr>item_id = ''1'', isRead = True\<rparr>] ([] :: post list))
        \<lparr>item_id = ''1'', isRead = True\<rparr> = 0
   \<and> count_list (locateDifferenceInArrays
        [\<lparr>item_id = ''1'', isRead = False\<rparr>, \<lparr>item_id = ''1'', isRead = True\<rparr>] ([] :: post list))
        \<lparr>item_id = ''1'', isRead = False\<rparr> = 2"
  by (simp add: locateDifferenceInArrays_def)

text \<open>
  Claim C2, amended: for all arrays \<open>A\<close> and \<open>B\<close>, every item of the difference is an
  item of \<open>A\<close> whose id is not an id of \<open>B\<close>, and the ids of the difference are the ids
  of \<open>A\<close> absent from \<open>B\<close>, in the order of \<open>A\<close>. When the ids of \<open>A\<close> are pairwise
  distinct, the difference is exactly the items of \<open>A\<close> whose id is absent from \<open>B\<close>, in
  the order of \<open>A\<close>, and each of them occurs in it exactly once.
\<close>

theorem locateDifferenceInArrays_spec:
  "set (locateDifferenceInArrays A B) \<subseteq> set A
   \<and> (\<forall>x \<in> set (locateDifferenceInArrays A B). item_id x \<notin> set (map item_id B))
   \<and> map item_id (locateDifferenceInArrays A B)
       = filter (\<lambda>n. n \<notin> set (map item_id B)) (map item_id A)
   \<and> (distinct (map item_id A) \<longrightarrow>
        locateDifferenceInArrays A B = filter (\<lambda>x. item_id x \<notin> set (map item_id B)) A
        \<and> (\<forall>x \<in> set A. item_id x \<notin> set (map item_id B)
              \<longrightarrow> count_list (locateDifferenceInArrays A B) x = 1))"
proof (intro conjI impI ballI)
  show "set (locateDifferenceInArrays A B) \<subseteq> set A" by (rule diff_subset)
next
  fix x assume "x \<in> set (locateDifferenceInArrays A B)"
  then have "item_id x \<in> set (map item_id (locateDifferenceInArrays A B))" by simp
  then show "item_id x \<notin> set (map item_id B)" unfolding diff_ids by simp
next
  show "map item_id (locateDifferenceInArrays A B)
          = filter (\<lambda>n. n \<notin> set (map item_id B)) (map item_id A)"
    by (rule diff_ids)
next
  assume "distinct (map item_id A)"
  then show "locateDifferenceInArrays A B = filter (\<lambda>x. item_id x \<notin> set (map item_id B)) A"
    by (rule diff_distinct)
next
  fix x
  assume d: "distinct (map item_id A)" and x: "x \<in> set A" "item_id x \<notin> set (map item_id B)"
  from d have "distinct A" by (rule distinct_map[THEN iffD1, THEN conjunct1])
  then have "distinct (filter (\<lambda>x. item_id x \<notin> set (map item_id B)) A)" by simp
  moreover from x have "x \<in> set (filter (\<lambda>x. item_id x \<notin> set (map item_id B)) A)" by simp
  ultimately show "count_list (locateDifferenceInArrays A B) x = 1"
    unfolding diff_distinct[OF d] by (rule count_list_distinct)
qed

theorem locateDifferenceInArrays_spec_witness:
  "distinct (map item_id [\<lparr>item_id = ''1'', isRead = True\<rparr>, \<lparr>item_id = ''2'', isRead = False\<rparr>])
   \<and> \<lparr>item_id = ''2'', isRead = False\<rparr>
        \<in> set [\<lparr>item_id = ''1'', isRead = True\<rparr>, \<lparr>item_id = ''2'', isRead = False\<rparr>]
   \<and> item_id \<lparr>item_id = ''2'', isRead = False\<rparr> \<notin> set (map item_id [\<lparr>item_id = ''1'', isRead = False\<rparr>])
   \<and> locateDifferenceInArrays
        [\<lparr>item_id = ''1'', isRead = True\<rparr>, \<lparr>item_id = ''2'', isRead = False\<rparr>]
        [\<lparr>item_id = ''1'', isRead = False\<rparr>]
       = [\<lparr>item_id = ''2'', isRead = False\<rparr>]
   \<and> count_list (locateDifferenceInArrays
        [\<lparr>item_id = ''1'', isRead = True\<rparr>, \<lparr>item_id = ''2'', isRead = False\<rparr>]
        [\<lparr>item_id = ''1'', isRead = False\<rparr>]) \<lparr>item_id = ''2'', isRead = False\<rparr> = 1"
  using locateDifferenceInArrays_spec
    [of "[\<lparr>item_id = ''1'', isRead = True\<rparr>, \<lparr>item_id = ''2'', isRead = False\<rparr>]"
        "[\<lparr>item_id = ''1'', isRead = False\<rparr>]"]
  by simp

section \<open>Properties of the recency filter\<close>

lemma js_gt_iff: "js_gt x b \<longleftrightarrow> (\<exists>t. x = Some t \<and> b < t)"
  by (cases x) auto

text \<open>
  Claim C8, as stated, fails for a date in the future: the filter has a lower bound only.
  An announcement whose publish date is one hour after the time of evaluation passes the
  filter, and that time is not within the last 48 hours.
\<close>

theorem isRecentAnnouncement_future_date:
  "isRecentAnnouncement 1700000000000
     \<lparr>item_id = ''a1'', publishDate = Instant 1700003600000, startDate = Absent\<rparr>
   \<and> getTime (publishDate \<lparr>item_id = ''a1'', publishDate = Instant 1700003600000, startDate = Absent\<rparr>)
       = Some 1700003600000
   \<and> getTime (startDate \<lparr>item_id = ''a1'', publishDate = Instant 1700003600000, startDate = Absent\<rparr>)
       = None
   \<and> \<not> spec_withinLast48Hours 1700000000000 1700003600000"
  by (simp add: isRecentAnnouncement_def spec_withinLast48Hours_def)

lemma isRecentAnnouncement_iff:
  "isRecentAnnouncement clock a \<longleftrightarrow>
      (\<exists>t. getTime (publishDate a) = Some t \<and> clock - 48 * 3600000 < t)
      \<or> (\<exists>t. getTime (startDate a) = Some t \<and> clock - 48 * 3600000 < t)"
  by (simp add: isRecentAnnouncement_def js_gt_iff Let_def)

section \<open>What the operations on the state touch\<close>

lemma place_fields [simp]:
  "cache (place r st) = cache st" "disk (place r st) = disk st"
  "events (place r st) = events st" "reports (place r st) = reports st"
  "requests (place r st) = requests st @ [r]"
  by (simp_all add: place_def)

lemma emit_fields [simp]:
  "cache (emit ev st) = cache st" "disk (emit ev st) = disk st"
  "events (emit ev st) = events st @ [ev]" "reports (emit ev st) = reports st"
  "requests (emit ev st) = requests st"
  by (simp_all add: emit_def)

lemma handle401_fields [simp]:
  "cache (handle401 u st) = cache st" "disk (handle401 u st) = disk st"
  "events (handle401 u st) = events st" "reports (handle401 u st) = reports st @ [u]"
  "requests (handle401 u st) = requests st"
  by (simp_all add: handle401_def)

lemma cache_set_fields [simp]:
  "cache (cache_set k v st) = (cache st)(k := v)" "disk (cache_set k v st) = disk st"
  "events (cache_set k v st) = events st" "reports (cache_set k v st) = reports st"
  "requests (cache_set k v st) = requests st"
  by (simp_all add: cache_set_def)

lemma writeCacheFile_fields [simp]:
  "cache (writeCacheFile fp d st) = cache st"
  "disk (writeCacheFile fp d st) = (disk st)(fp := Some d)"
  "events (writeCacheFile fp d st) = events st" "reports (writeCacheFile fp d st) = reports st"
  "requests (writeCacheFile fp d st) = requests st"
  by (simp_all add: writeCacheFile_def)

lemma catchFetchError_fields [simp]:
  "cache (catchFetchError e u st) = cache st" "disk (catchFetchError e u st) = disk st"
  "events (catchFetchError e u st) = events st"
  "reports (catchFetchError e u st) = (if e = Unauthorized then reports st @ [u] else reports st)"
  "requests (catchFetchError e u st) = requests st"
  by (cases e; simp add: catchFetchError_def)+

lemma cache_get_simp [simp]: "cache_get st k = cache st k"
  by (simp add: cache_get_def)

lemmas scenario_defs = env_mixed_def env_announcements_def env_grades_def env_inbox_def
  quiet_def st0_def cached_def cs101_def cs102_def

lemmas watcher_defs = watchForAnnouncements_def tryAnnouncements_def announcementsBody_def
  watchForGrades_def gradesCourse_def tryGrades_def gradesBody_def
  watchForInboxMessages_def tryInbox_def inboxBody_def inboxForum_def
  getUnreadMessagesCount_def Let_def

section \<open>Properties of the announcements watcher\<close>

lemma getClassAnnouncementsSafe_frame:
  "cache (snd (getClassAnnouncementsSafe E c us st)) = cache st
   \<and> disk (snd (getClassAnnouncementsSafe E c us st)) = disk st
   \<and> events (snd (getClassAnnouncementsSafe E c us st)) = events st"
  by (induction us arbitrary: st) (auto split: sum.splits option.splits)

lemma emitAnnouncements_fields [simp]:
  "cache (emitAnnouncements E anns st) = cache st"
  "disk (emitAnnouncements E anns st) = disk st"
  "reports (emitAnnouncements E anns st) = reports st"
  "requests (emitAnnouncements E anns st) = requests st"
  "events (emitAnnouncements E anns st)
     = events st @ map AnnouncementEvent (filter (isRecentAnnouncement (now E)) anns)"
  unfolding emitAnnouncements_def
  by (induction anns arbitrary: st; simp)+

lemma announcementsBody_events:
  "\<exists>anns. events (fst (announcementsBody E entry st))
      = events st @ map AnnouncementEvent (filter (isRecentAnnouncement (now E)) anns)"
proof -
  have *: "\<exists>anns. events st
             = events st @ map AnnouncementEvent (filter (isRecentAnnouncement (now E)) anns)"
    by (rule exI[of _ "[]"]) simp
  show ?thesis
    unfolding announcementsBody_def Let_def
    using * by (auto simp: getClassAnnouncementsSafe_frame split: option.splits)
qed

lemma tryAnnouncements_events:
  "ev \<in> set (events (tryAnnouncements E st entry)) \<Longrightarrow>
   ev \<in> set (events st) \<or> (\<exists>a. ev = AnnouncementEvent a \<and> isRecentAnnouncement (now E) a)"
  unfolding tryAnnouncements_def
  using announcementsBody_events[of E entry st] by auto

lemma foldl_tryAnnouncements_events:
  "ev \<in> set (events (foldl (tryAnnouncements E) st cs)) \<Longrightarrow>
   ev \<in> set (events st) \<or> (\<exists>a. ev = AnnouncementEvent a \<and> isRecentAnnouncement (now E) a)"
proof (induction cs arbitrary: st)
  case Nil
  then show ?case by simp
next
  case (Cons c cs)
  from Cons.IH[of "tryAnnouncements E st c"] Cons.prems
  show ?case using tryAnnouncements_events[of ev E st c] by auto
qed

lemma watchForAnnouncements_events:
  "ev \<in> set (events (fst (watchForAnnouncements E st))) \<Longrightarrow>
   ev \<in> set (events st) \<or> (\<exists>a. ev = AnnouncementEvent a \<and> isRecentAnnouncement (now E) a)"
  unfolding watchForAnnouncements_def
  using foldl_tryAnnouncements_events[of ev E st]
  by (auto split: sum.splits)

text \<open>
  Claim C10: an announcement whose \<open>publishDate\<close> and \<open>startDate\<close> are both missing or
  not parseable as dates does not pass the recency filter, whatever the time of
  evaluation, and a tick of the announcements watcher never emits it: if no event for it
  was there before the tick, none is there after it.
\<close>

theorem undated_announcement_never_emitted:
  "(publishDate a \<in> {Absent, Unparseable} \<and> startDate a \<in> {Absent, Unparseable}
      \<longrightarrow> \<not> isRecentAnnouncement clock a)
   \<and> (publishDate a \<in> {Absent, Unparseable} \<and> startDate a \<in> {Absent, Unparseable}
        \<and> AnnouncementEvent a \<notin> set (events st)
      \<longrightarrow> AnnouncementEvent a \<notin> set (events (fst (watchForAnnouncements E st))))"
proof (intro conjI impI)
  assume "publishDate a \<in> {Absent, Unparseable} \<and> startDate a \<in> {Absent, Unparseable}"
  then show "\<not> isRecentAnnouncement clock a"
    by (auto simp: isRecentAnnouncement_def)
next
  assume h: "publishDate a \<in> {Absent, Unparseable} \<and> startDate a \<in> {Absent, Unparseable}
        \<and> AnnouncementEvent a \<notin> set (events st)"
  then have "\<not> isRecentAnnouncement (now E) a"
    by (auto simp: isRecentAnnouncement_def)
  with h show "AnnouncementEvent a \<notin> set (events (fst (watchForAnnouncements E st)))"
    using watchForAnnouncements_events[of "AnnouncementEvent a" E st] by auto
qed

text \<open>
  The class \<open>c1\<close> has an empty snapshot and the fetch returns one announcement without
  dates: the snapshot is replaced, and no event is emitted.
\<close>

theorem undated_announcement_never_emitted_witness:
  "publishDate announcement_undated \<in> {Absent, Unparseable}
   \<and> startDate announcement_undated \<in> {Absent, Unparseable}
   \<and> AnnouncementEvent announcement_undated \<notin> set (events (cached [''c1''] []))
   \<and> \<not> isRecentAnnouncement 1700000000000 announcement_undated
   \<and> AnnouncementEvent announcement_undated
       \<notin> set (events (fst (watchForAnnouncements
                 (env_announcements (Inr [announcement_undated])) (cached [''c1''] []))))"
  using undated_announcement_never_emitted
    [of announcement_undated 1700000000000 "cached [''c1''] []"
        "env_announcements (Inr [announcement_undated])"]
  by (simp add: announcement_undated_def cached_def st0_def)

text \<open>
  A \<open>null\<close> date is not missing for \<open>new Date\<close>: it is the epoch. An announcement with
  both dates \<open>null\<close> does not pass the filter once the clock is 48 hours past the epoch.
\<close>

lemma null_dates_not_recent:
  "publishDate a = Null \<Longrightarrow> startDate a = Null \<Longrightarrow> 48 * 3600000 \<le> clock
   \<Longrightarrow> \<not> isRecentAnnouncement clock a"
  by (simp add: isRecentAnnouncement_def)

section \<open>The first fetch and the fetch of the same size\<close>

lemma getClassAnnouncementsSafe_Some_nonempty:
  "getClassAnnouncementsSafe E c us st = (Some anns, st1) \<Longrightarrow> us \<noteq> []"
  by (cases us) auto

text \<open>
  Claim C5: when the cached snapshot of a target is \<open>null\<close> and the fetch succeeds,
  processing the target emits no event, persists the new snapshot under the path of the
  key and caches it. For a class this is the array that \<open>getClassAnnouncementsSafe\<close>
  returned, for a user of a course the \<open>PUBLISHED\<close> grades of the fetched array (the
  snapshot of the grades watcher), for a forum of a user the fetched posts.
\<close>

theorem first_fetch_persists_silently:
  "(cache st [c] = None
      \<and> getClassAnnouncementsSafe E c (getActiveUsersInClass E c) st = (Some anns, st1)
     \<longrightarrow> events (tryAnnouncements E st (c, crs)) = events st
         \<and> disk (tryAnnouncements E st (c, crs)) c = Some (Some anns)
         \<and> cache (tryAnnouncements E st (c, crs)) [c] = Some anns)
   \<and> (cache sg [c, u] = None \<and> getUserCookie E u = Inr (Some ck)
      \<and> getAllGrades E ck (slugId crs) = Inr (gs, fg)
     \<longrightarrow> events (tryGrades E (c, crs) sg u) = events sg
         \<and> disk (tryGrades E (c, crs) sg u) (c @ ''/'' @ u @ ''.json'')
             = Some (Some (filter (\<lambda>g. status g = ''PUBLISHED'') gs))
         \<and> cache (tryGrades E (c, crs) sg u) [c, u]
             = Some (filter (\<lambda>g. status g = ''PUBLISHED'') gs))
   \<and> (cache si [u, f] = None \<and> getPostsForInboxForum E ck f = Inr ps
     \<longrightarrow> snd (inboxForum E u ck (f, n) si) = None
         \<and> events (fst (inboxForum E u ck (f, n) si)) = events si
         \<and> disk (fst (inboxForum E u ck (f, n) si)) (u @ ''/'' @ f @ ''.json'') = Some (Some ps)
         \<and> cache (fst (inboxForum E u ck (f, n) si)) [u, f] = Some ps)"
proof (intro conjI impI)
  assume h: "cache st [c] = None
      \<and> getClassAnnouncementsSafe E c (getActiveUsersInClass E c) st = (Some anns, st1)"
  then have ne: "getActiveUsersInClass E c \<noteq> []"
    using getClassAnnouncementsSafe_Some_nonempty by blast
  have fr: "cache st1 = cache st" "disk st1 = disk st" "events st1 = events st"
    using getClassAnnouncementsSafe_frame[of E c "getActiveUsersInClass E c" st] h by simp_all
  have body: "tryAnnouncements E st (c, crs)
      = writeCacheFile c (Some anns) (cache_set [c] (Some anns) st1)"
    using h ne by (simp add: tryAnnouncements_def announcementsBody_def Let_def)
  show "events (tryAnnouncements E st (c, crs)) = events st" by (simp add: body fr)
  show "disk (tryAnnouncements E st (c, crs)) c = Some (Some anns)" by (simp add: body)
  show "cache (tryAnnouncements E st (c, crs)) [c] = Some anns" by (simp add: body)
next
  assume h: "cache sg [c, u] = None \<and> getUserCookie E u = Inr (Some ck)
      \<and> getAllGrades E ck (slugId crs) = Inr (gs, fg)"
  have body: "tryGrades E (c, crs) sg u
      = writeCacheFile (c @ ''/'' @ u @ ''.json'') (Some (filter (\<lambda>g. status g = ''PUBLISHED'') gs))
          (cache_set [c, u] (Some (filter (\<lambda>g. status g = ''PUBLISHED'') gs))
             (place (GetAllGrades ck (slugId crs)) sg))"
    using h by (simp add: tryGrades_def gradesBody_def Let_def)
  show "events (tryGrades E (c, crs) sg u) = events sg" by (simp add: body)
  show "disk (tryGrades E (c, crs) sg u) (c @ ''/'' @ u @ ''.json'')
             = Some (Some (filter (\<lambda>g. status g = ''PUBLISHED'') gs))" by (simp add: body)
  show "cache (tryGrades E (c, crs) sg u) [c, u]
             = Some (filter (\<lambda>g. status g = ''PUBLISHED'') gs)" by (simp add: body)
next
  assume h: "cache si [u, f] = None \<and> getPostsForInboxForum E ck f = Inr ps"
  have body: "inboxForum E u ck (f, n) si
      = (writeCacheFile (u @ ''/'' @ f @ ''.json'') (Some ps)
          (cache_set [u, f] (Some ps) (place (GetPostsForInboxForum ck f) si)), None)"
    using h by (simp add: inboxForum_def Let_def)
  show "snd (inboxForum E u ck (f, n) si) = None" by (simp add: body)
  show "events (fst (inboxForum E u ck (f, n) si)) = events si" by (simp add: body)
  show "disk (fst (inboxForum E u ck (f, n) si)) (u @ ''/'' @ f @ ''.json'') = Some (Some ps)"
    by (simp add: body)
  show "cache (fst (inboxForum E u ck (f, n) si)) [u, f] = Some ps" by (simp add: body)
qed

text \<open>
  The three watchers on an empty cache: the class \<open>c1\<close> with one fresh announcement,
  the user \<open>u1\<close> of \<open>c1\<close> with a published and a draft grade, and the forum \<open>f1\<close> of
  \<open>u1\<close> with one unread post. Nothing is emitted, and each snapshot is on disk.
\<close>

theorem first_fetch_persists_silently_witness:
  "(cache (st0 :: announcement state) [''c1''] = None
    \<and> getClassAnnouncementsSafe (env_announcements (Inr [announcement_fresh])) ''c1''
         (getActiveUsersInClass (env_announcements (Inr [announcement_fresh])) ''c1'') st0
        = (Some [announcement_fresh], place (GetClassAnnouncements ''k1'' ''c1'') st0)
    \<and> events (tryAnnouncements (env_announcements (Inr [announcement_fresh])) st0 (''c1'', cs101)) = []
    \<and> disk (tryAnnouncements (env_announcements (Inr [announcement_fresh])) st0 (''c1'', cs101)) ''c1''
        = Some (Some [announcement_fresh]))
   \<and> (cache (st0 :: grade state) [''c1'', ''u1''] = None
    \<and> getUserCookie (env_grades (Inr ([grade1, grade_draft], ''A'')) (\<lambda>a. Inl Failure)) ''u1''
        = Inr (Some ''k1'')
    \<and> getAllGrades (env_grades (Inr ([grade1, grade_draft], ''A'')) (\<lambda>a. Inl Failure)) ''k1''
         (slugId cs101) = Inr ([grade1, grade_draft], ''A'')
    \<and> events (tryGrades (env_grades (Inr ([grade1, grade_draft], ''A'')) (\<lambda>a. Inl Failure))
         (''c1'', cs101) st0 ''u1'') = []
    \<and> disk (tryGrades (env_grades (Inr ([grade1, grade_draft], ''A'')) (\<lambda>a. Inl Failure))
         (''c1'', cs101) st0 ''u1'') ''c1/u1.json'' = Some (Some [grade1]))
   \<and> (cache (st0 :: post state) [''u1'', ''f1''] = None
    \<and> getPostsForInboxForum (env_inbox [(''f1'', 1)] (\<lambda>f. Inr [post_unread])) ''k1'' ''f1''
        = Inr [post_unread]
    \<and> events (fst (inboxForum (env_inbox [(''f1'', 1)] (\<lambda>f. Inr [post_unread])) ''u1'' ''k1''
         (''f1'', 1) st0)) = []
    \<and> disk (fst (inboxForum (env_inbox [(''f1'', 1)] (\<lambda>f. Inr [post_unread])) ''u1'' ''k1''
         (''f1'', 1) st0)) ''u1/f1.json'' = Some (Some [post_unread]))"
  using
    first_fetch_persists_silently[where E = "env_announcements (Inr [announcement_fresh])" and st = st0 and c = "''c1''"
        and anns = "[announcement_fresh]" and crs = cs101
        and ?st1.0 = "place (GetClassAnnouncements ''k1'' ''c1'') st0",
      THEN conjunct1]
    first_fetch_persists_silently[where E = "env_grades (Inr ([grade1, grade_draft], ''A'')) (\<lambda>a. Inl Failure)"
        and sg = st0 and c = "''c1''" and u = "''u1''" and ck = "''k1''" and crs = cs101
        and gs = "[grade1, grade_draft]" and fg = "''A''",
      THEN conjunct2, THEN conjunct1]
    first_fetch_persists_silently[where E = "env_inbox [(''f1'', 1)] (\<lambda>f. Inr [post_unread])"
        and si = st0 and u = "''u1''" and f = "''f1''" and ck = "''k1''" and ps = "[post_unread]"
        and n = 1,
      THEN conjunct2, THEN conjunct2]
  by (simp add: scenario_defs grade1_def grade_draft_def)

text \<open>
  Claim C6: when the cached snapshot of a target is not \<open>null\<close> and the fetch succeeds
  with a new snapshot of the same length, processing the target emits no event and leaves
  the disk as it is, whatever the members of the two collections, and the cache holds the
  new snapshot. The new snapshot is as in claim C5; for a forum the fetch is one that the
  gate of the inbox watcher lets through.
\<close>

theorem same_size_fetch_silent:
  "(cache st [c] = Some old
      \<and> getClassAnnouncementsSafe E c (getActiveUsersInClass E c) st = (Some anns, st1)
      \<and> length anns = length old
     \<longrightarrow> events (tryAnnouncements E st (c, crs)) = events st
         \<and> disk (tryAnnouncements E st (c, crs)) = disk st
         \<and> cache (tryAnnouncements E st (c, crs)) [c] = Some anns)
   \<and> (cache sg [c, u] = Some oldg \<and> getUserCookie E u = Inr (Some ck)
      \<and> getAllGrades E ck (slugId crs) = Inr (gs, fg)
      \<and> length (filter (\<lambda>g. status g = ''PUBLISHED'') gs) = length oldg
     \<longrightarrow> events (tryGrades E (c, crs) sg u) = events sg
         \<and> disk (tryGrades E (c, crs) sg u) = disk sg
         \<and> cache (tryGrades E (c, crs) sg u) [c, u]
             = Some (filter (\<lambda>g. status g = ''PUBLISHED'') gs))
   \<and> (cache si [u, f] = Some oldp
      \<and> n \<noteq> 0 \<and> n \<noteq> int (length (filter (\<lambda>p. \<not> isRead p) oldp))
      \<and> getPostsForInboxForum E ck f = Inr ps \<and> length ps = length oldp
     \<longrightarrow> snd (inboxForum E u ck (f, n) si) = None
         \<and> events (fst (inboxForum E u ck (f, n) si)) = events si
         \<and> disk (fst (inboxForum E u ck (f, n) si)) = disk si
         \<and> cache (fst (inboxForum E u ck (f, n) si)) [u, f] = Some ps)"
proof (intro conjI impI)
  assume h: "cache st [c] = Some old
      \<and> getClassAnnouncementsSafe E c (getActiveUsersInClass E c) st = (Some anns, st1)
      \<and> length anns = length old"
  then have ne: "getActiveUsersInClass E c \<noteq> []"
    using getClassAnnouncementsSafe_Some_nonempty by blast
  have fr: "cache st1 = cache st" "disk st1 = disk st" "events st1 = events st"
    using getClassAnnouncementsSafe_frame[of E c "getActiveUsersInClass E c" st] h by simp_all
  have body: "tryAnnouncements E st (c, crs) = cache_set [c] (Some anns) st1"
    using h ne by (simp add: tryAnnouncements_def announcementsBody_def Let_def)
  show "events (tryAnnouncements E st (c, crs)) = events st" by (simp add: body fr)
  show "disk (tryAnnouncements E st (c, crs)) = disk st" by (simp add: body fr)
  show "cache (tryAnnouncements E st (c, crs)) [c] = Some anns" by (simp add: body)
next
  assume h: "cache sg [c, u] = Some oldg \<and> getUserCookie E u = Inr (Some ck)
      \<and> getAllGrades E ck (slugId crs) = Inr (gs, fg)
      \<and> length (filter (\<lambda>g. status g = ''PUBLISHED'') gs) = length oldg"
  have body: "tryGrades E (c, crs) sg u
      = cache_set [c, u] (Some (filter (\<lambda>g. status g = ''PUBLISHED'') gs))
             (place (GetAllGrades ck (slugId crs)) sg)"
    using h by (simp add: tryGrades_def gradesBody_def Let_def)
  show "events (tryGrades E (c, crs) sg u) = events sg" by (simp add: body)
  show "disk (tryGrades E (c, crs) sg u) = disk sg" by (simp add: body)
  show "cache (tryGrades E (c, crs) sg u) [c, u]
             = Some (filter (\<lambda>g. status g = ''PUBLISHED'') gs)" by (simp add: body)
next
  assume h: "cache si [u, f] = Some oldp
      \<and> n \<noteq> 0 \<and> n \<noteq> int (length (filter (\<lambda>p. \<not> isRead p) oldp))
      \<and> getPostsForInboxForum E ck f = Inr ps \<and> length ps = length oldp"
  have body: "inboxForum E u ck (f, n) si
      = (cache_set [u, f] (Some ps) (place (GetPostsForInboxForum ck f) si), None)"
    using h by (simp add: inboxForum_def getUnreadMessagesCount_def Let_def)
  show "snd (inboxForum E u ck (f, n) si) = None" by (simp add: body)
  show "events (fst (inboxForum E u ck (f, n) si)) = events si" by (simp add: body)
  show "disk (fst (inboxForum E u ck (f, n) si)) = disk si" by (simp add: body)
  show "cache (fst (inboxForum E u ck (f, n) si)) [u, f] = Some ps" by (simp add: body)
qed

text \<open>
  In each watcher the cached snapshot has one member and the fetch returns one other
  member: a fresh announcement replaces an undated one, the grade \<open>g2\<close> replaces
  \<open>g1\<close>, an unread post replaces a read one. No event, no file, and the cache holds
  the new member.
\<close>

theorem same_size_fetch_silent_witness:
  "(cache (cached [''c1''] [announcement_undated]) [''c1''] = Some [announcement_undated]
    \<and> getClassAnnouncementsSafe (env_announcements (Inr [announcement_fresh])) ''c1''
         (getActiveUsersInClass (env_announcements (Inr [announcement_fresh])) ''c1'')
         (cached [''c1''] [announcement_undated])
        = (Some [announcement_fresh],
           place (GetClassAnnouncements ''k1'' ''c1'') (cached [''c1''] [announcement_undated]))
    \<and> length [announcement_fresh] = length [announcement_undated]
    \<and> events (tryAnnouncements (env_announcements (Inr [announcement_fresh]))
         (cached [''c1''] [announcement_undated]) (''c1'', cs101)) = []
    \<and> disk (tryAnnouncements (env_announcements (Inr [announcement_fresh]))
         (cached [''c1''] [announcement_undated]) (''c1'', cs101)) ''c1'' = None
    \<and> cache (tryAnnouncements (env_announcements (Inr [announcement_fresh]))
         (cached [''c1''] [announcement_undated]) (''c1'', cs101)) [''c1'']
        = Some [announcement_fresh])
   \<and> (cache (cached [''c1'', ''u1''] [grade1]) [''c1'', ''u1''] = Some [grade1]
    \<and> getUserCookie (env_grades (Inr ([grade2], ''A'')) (\<lambda>a. Inr ''well done'')) ''u1''
        = Inr (Some ''k1'')
    \<and> getAllGrades (env_grades (Inr ([grade2], ''A'')) (\<lambda>a. Inr ''well done'')) ''k1''
         (slugId cs101) = Inr ([grade2], ''A'')
    \<and> length (filter (\<lambda>g. status g = ''PUBLISHED'') [grade2]) = length [grade1]
    \<and> events (tryGrades (env_grades (Inr ([grade2], ''A'')) (\<lambda>a. Inr ''well done''))
         (''c1'', cs101) (cached [''c1'', ''u1''] [grade1]) ''u1'') = []
    \<and> disk (tryGrades (env_grades (Inr ([grade2], ''A'')) (\<lambda>a. Inr ''well done''))
         (''c1'', cs101) (cached [''c1'', ''u1''] [grade1]) ''u1'') ''c1/u1.json'' = None
    \<and> cache (tryGrades (env_grades (Inr ([grade2], ''A'')) (\<lambda>a. Inr ''well done''))
         (''c1'', cs101) (cached [''c1'', ''u1''] [grade1]) ''u1'') [''c1'', ''u1'']
        = Some [grade2])
   \<and> (cache (cached [''u1'', ''f1''] [post_read]) [''u1'', ''f1''] = Some [post_read]
    \<and> (1::int) \<noteq> 0 \<and> (1::int) \<noteq> int (length (filter (\<lambda>p. \<not> isRead p) [post_read]))
    \<and> getPostsForInboxForum (env_inbox [(''f1'', 1)] (\<lambda>f. Inr [post_unread])) ''k1'' ''f1''
        = Inr [post_unread]
    \<and> length [post_unread] = length [post_read]
    \<and> events (fst (inboxForum (env_inbox [(''f1'', 1)] (\<lambda>f. Inr [post_unread])) ''u1'' ''k1''
         (''f1'', 1) (cached [''u1'', ''f1''] [post_read]))) = []
    \<and> disk (fst (inboxForum (env_inbox [(''f1'', 1)] (\<lambda>f. Inr [post_unread])) ''u1'' ''k1''
         (''f1'', 1) (cached [''u1'', ''f1''] [post_read]))) ''u1/f1.json'' = None
    \<and> cache (fst (inboxForum (env_inbox [(''f1'', 1)] (\<lambda>f. Inr [post_unread])) ''u1'' ''k1''
         (''f1'', 1) (cached [''u1'', ''f1''] [post_read]))) [''u1'', ''f1''] = Some [post_unread])"
  using
    same_size_fetch_silent[where E = "env_announcements (Inr [announcement_fresh])"
        and st = "cached [''c1''] [announcement_undated]" and c = "''c1''"
        and old = "[announcement_undated]" and anns = "[announcement_fresh]" and crs = cs101
        and ?st1.0 = "place (GetClassAnnouncements ''k1'' ''c1'') (cached [''c1''] [announcement_undated])",
      THEN conjunct1]
    same_size_fetch_silent[where E = "env_grades (Inr ([grade2], ''A'')) (\<lambda>a. Inr ''well done'')"
        and sg = "cached [''c1'', ''u1''] [grade1]" and c = "''c1''" and u = "''u1''"
        and ck = "''k1''" and crs = cs101 and gs = "[grade2]" and fg = "''A''"
        and oldg = "[grade1]",
      THEN conjunct2, THEN conjunct1]
    same_size_fetch_silent[where E = "env_inbox [(''f1'', 1)] (\<lambda>f. Inr [post_unread])"
        and si = "cached [''u1'', ''f1''] [post_read]" and u = "''u1''" and f = "''f1''"
        and ck = "''k1''" and ps = "[post_unread]" and oldp = "[post_read]" and n = 1,
      THEN conjunct2, THEN conjunct2]
  by (simp add: scenario_defs grade1_def grade2_def post_read_def post_unread_def)


section \<open>The events of the inbox watcher\<close>

lemma emitInboxMessages_fields [simp]:
  "cache (emitInboxMessages u ps st) = cache st"
  "disk (emitInboxMessages u ps st) = disk st"
  "reports (emitInboxMessages u ps st) = reports st"
  "requests (emitInboxMessages u ps st) = requests st"
  "events (emitInboxMessages u ps st)
     = events st @ map (\<lambda>p. InboxMessageEvent p u) (filter (\<lambda>p. \<not> isRead p) ps)"
  unfolding emitInboxMessages_def
  by (induction ps arbitrary: st; simp)+

section \<open>The recency filter in the tick\<close>

lemma foldl_events_mono:
  assumes "\<And>s x. set (events s) \<subseteq> set (events (f s x))"
  shows "set (events st) \<subseteq> set (events (foldl f st xs))"
proof (induction xs arbitrary: st)
  case Nil
  then show ?case by simp
next
  case (Cons x xs)
  have "set (events st) \<subseteq> set (events (f st x))" by (rule assms)
  also have "\<dots> \<subseteq> set (events (foldl f (f st x) xs))" by (rule Cons.IH)
  finally show ?case by simp
qed

lemma tryAnnouncements_events_mono:
  "set (events st) \<subseteq> set (events (tryAnnouncements E st entry))"
  using announcementsBody_events[of E entry st] by (auto simp: tryAnnouncements_def)

lemma tryAnnouncements_changed:
  assumes "cache s [c] = Some old"
    and "getClassAnnouncementsSafe E c (getActiveUsersInClass E c) s = (Some nw, s1)"
    and "length nw \<noteq> length old"
  shows "events (tryAnnouncements E s (c, crs))
     = events s @ map AnnouncementEvent
         (filter (isRecentAnnouncement (now E)) (locateDifferenceInArrays nw old))"
proof -
  have ne: "getActiveUsersInClass E c \<noteq> []"
    using assms(2) getClassAnnouncementsSafe_Some_nonempty by blast
  have fr: "events s1 = events s"
    using getClassAnnouncementsSafe_frame[of E c "getActiveUsersInClass E c" s] assms(2) by simp
  show ?thesis
    using assms ne fr by (simp add: tryAnnouncements_def announcementsBody_def Let_def)
qed

lemma announcements_tick_emits:
  assumes "getActiveClasses E = Inr (cpre @ (c, crs) # cpost)"
    and "foldl (tryAnnouncements E) st cpre = s"
    and "cache s [c] = Some old"
    and "getClassAnnouncementsSafe E c (getActiveUsersInClass E c) s = (Some nw, s1)"
    and "length nw \<noteq> length old"
    and "a \<in> set (locateDifferenceInArrays nw old)"
    and "isRecentAnnouncement (now E) a"
  shows "AnnouncementEvent a \<in> set (events (fst (watchForAnnouncements E st)))"
proof -
  have "AnnouncementEvent a \<in> set (events (tryAnnouncements E s (c, crs)))"
    using tryAnnouncements_changed[OF assms(3,4,5)] assms(6,7) by simp
  then have "AnnouncementEvent a
      \<in> set (events (foldl (tryAnnouncements E) (tryAnnouncements E s (c, crs)) cpost))"
    using foldl_events_mono[of "tryAnnouncements E", OF tryAnnouncements_events_mono] by blast
  then show ?thesis using assms(1,2) by (auto simp: watchForAnnouncements_def)
qed

text \<open>
  Claim C8, amended: the filter passes an announcement if and only if its \<open>publishDate\<close>
  or its \<open>startDate\<close> parses to a time strictly later than 48 hours before the wall-clock
  time at evaluation; there is no upper bound, so a time in the future passes as well.
  The loop over the new announcements emits exactly those that pass, in their order. In a
  tick, when the turn of a class comes with a snapshot cached, a fetch that succeeds and a
  changed length, an announcement of the difference that was not emitted before is among
  the events of the tick if and only if it passes; one with \<open>publishDate\<close> 1 hour in the
  past is emitted. An announcement with both dates 49 hours in the past is excluded from
  emission in every tick.
\<close>

theorem isRecentAnnouncement_threshold:
  "(isRecentAnnouncement clock a \<longleftrightarrow>
      (\<exists>t. getTime (publishDate a) = Some t \<and> clock - 48 * 3600000 < t)
      \<or> (\<exists>t. getTime (startDate a) = Some t \<and> clock - 48 * 3600000 < t))
   \<and> events (emitAnnouncements E anns se)
       = events se @ map AnnouncementEvent
           (filter (\<lambda>x. (\<exists>t. getTime (publishDate x) = Some t \<and> now E - 48 * 3600000 < t)
                        \<or> (\<exists>t. getTime (startDate x) = Some t \<and> now E - 48 * 3600000 < t))
                   anns)
   \<and> (getActiveClasses E = Inr (cpre @ (c, crs) # cpost)
      \<and> foldl (tryAnnouncements E) st cpre = s
      \<and> cache s [c] = Some old
      \<and> getClassAnnouncementsSafe E c (getActiveUsersInClass E c) s = (Some nw, sn)
      \<and> length nw \<noteq> length old
      \<and> d \<in> set (locateDifferenceInArrays nw old)
      \<and> AnnouncementEvent d \<notin> set (events st)
     \<longrightarrow> (AnnouncementEvent d \<in> set (events (fst (watchForAnnouncements E st)))
           \<longleftrightarrow> (\<exists>t. getTime (publishDate d) = Some t \<and> now E - 48 * 3600000 < t)
               \<or> (\<exists>t. getTime (startDate d) = Some t \<and> now E - 48 * 3600000 < t))
         \<and> (publishDate d = Instant (now E - 1 * 3600000)
             \<longrightarrow> AnnouncementEvent d \<in> set (events (fst (watchForAnnouncements E st)))))
   \<and> (publishDate b = Instant (now E - 49 * 3600000)
      \<and> startDate b = Instant (now E - 49 * 3600000)
      \<and> AnnouncementEvent b \<notin> set (events sb)
     \<longrightarrow> AnnouncementEvent b \<notin> set (events (fst (watchForAnnouncements E sb))))
   \<and> \<not> isRecentAnnouncement clock
         (a\<lparr>publishDate := Instant (clock - 49 * 3600000), startDate := Instant (clock - 49 * 3600000)\<rparr>)
   \<and> isRecentAnnouncement clock (a\<lparr>publishDate := Instant (clock - 1 * 3600000)\<rparr>)"
proof (intro conjI impI)
  show "isRecentAnnouncement clock a \<longleftrightarrow>
      (\<exists>t. getTime (publishDate a) = Some t \<and> clock - 48 * 3600000 < t)
      \<or> (\<exists>t. getTime (startDate a) = Some t \<and> clock - 48 * 3600000 < t)"
    by (rule isRecentAnnouncement_iff)
next
  have "filter (isRecentAnnouncement (now E)) anns
      = filter (\<lambda>x. (\<exists>t. getTime (publishDate x) = Some t \<and> now E - 48 * 3600000 < t)
                        \<or> (\<exists>t. getTime (startDate x) = Some t \<and> now E - 48 * 3600000 < t))
                   anns"
    by (rule filter_cong) (simp_all add: isRecentAnnouncement_iff)
  then show "events (emitAnnouncements E anns se)
       = events se @ map AnnouncementEvent
           (filter (\<lambda>x. (\<exists>t. getTime (publishDate x) = Some t \<and> now E - 48 * 3600000 < t)
                        \<or> (\<exists>t. getTime (startDate x) = Some t \<and> now E - 48 * 3600000 < t))
                   anns)"
    by simp
next
  assume h: "getActiveClasses E = Inr (cpre @ (c, crs) # cpost)
      \<and> foldl (tryAnnouncements E) st cpre = s
      \<and> cache s [c] = Some old
      \<and> getClassAnnouncementsSafe E c (getActiveUsersInClass E c) s = (Some nw, sn)
      \<and> length nw \<noteq> length old
      \<and> d \<in> set (locateDifferenceInArrays nw old)
      \<and> AnnouncementEvent d \<notin> set (events st)"
  have emitted: "AnnouncementEvent d \<in> set (events (fst (watchForAnnouncements E st)))"
    if "isRecentAnnouncement (now E) d"
    using h that announcements_tick_emits[of E cpre c crs cpost st s old nw sn d] by blast
  have recent: "isRecentAnnouncement (now E) d"
    if "AnnouncementEvent d \<in> set (events (fst (watchForAnnouncements E st)))"
    using h that watchForAnnouncements_events[of "AnnouncementEvent d" E st] by auto
  show "AnnouncementEvent d \<in> set (events (fst (watchForAnnouncements E st)))
           \<longleftrightarrow> (\<exists>t. getTime (publishDate d) = Some t \<and> now E - 48 * 3600000 < t)
               \<or> (\<exists>t. getTime (startDate d) = Some t \<and> now E - 48 * 3600000 < t)"
    using emitted recent isRecentAnnouncement_iff[of "now E" d] by blast
  show "AnnouncementEvent d \<in> set (events (fst (watchForAnnouncements E st)))"
    if "publishDate d = Instant (now E - 1 * 3600000)"
    using emitted that by (simp add: isRecentAnnouncement_iff)
next
  assume h: "publishDate b = Instant (now E - 49 * 3600000)
      \<and> startDate b = Instant (now E - 49 * 3600000)
      \<and> AnnouncementEvent b \<notin> set (events sb)"
  then have "\<not> isRecentAnnouncement (now E) b" by (simp add: isRecentAnnouncement_iff)
  with h show "AnnouncementEvent b \<notin> set (events (fst (watchForAnnouncements E sb)))"
    using watchForAnnouncements_events[of "AnnouncementEvent b" E sb] by auto
next
  show "\<not> isRecentAnnouncement clock
         (a\<lparr>publishDate := Instant (clock - 49 * 3600000), startDate := Instant (clock - 49 * 3600000)\<rparr>)"
    by (simp add: isRecentAnnouncement_iff)
next
  show "isRecentAnnouncement clock (a\<lparr>publishDate := Instant (clock - 1 * 3600000)\<rparr>)"
    by (simp add: isRecentAnnouncement_iff)
qed

text \<open>
  The class \<open>c1\<close> has an empty snapshot, and the fetch returns an announcement published
  1 hour ago and one with both dates 49 hours ago: the tick emits the first and not the
  second.
\<close>

theorem isRecentAnnouncement_threshold_witness:
  "getActiveClasses (env_announcements (Inr [announcement_fresh, announcement_stale]))
       = Inr ([] @ (''c1'', cs101) # [])
   \<and> foldl (tryAnnouncements (env_announcements (Inr [announcement_fresh, announcement_stale])))
        (cached [''c1''] []) [] = cached [''c1''] []
   \<and> cache (cached [''c1''] [] :: announcement state) [''c1''] = Some []
   \<and> getClassAnnouncementsSafe (env_announcements (Inr [announcement_fresh, announcement_stale]))
        ''c1''
        (getActiveUsersInClass (env_announcements (Inr [announcement_fresh, announcement_stale]))
           ''c1'')
        (cached [''c1''] [])
       = (Some [announcement_fresh, announcement_stale],
          place (GetClassAnnouncements ''k1'' ''c1'') (cached [''c1''] []))
   \<and> length [announcement_fresh, announcement_stale] \<noteq> length ([] :: announcement list)
   \<and> announcement_fresh
       \<in> set (locateDifferenceInArrays [announcement_fresh, announcement_stale]
                 ([] :: announcement list))
   \<and> AnnouncementEvent announcement_fresh
       \<notin> set (events (cached [''c1''] [] :: announcement state))
   \<and> publishDate announcement_fresh
       = Instant (now (env_announcements (Inr [announcement_fresh, announcement_stale]))
                  - 1 * 3600000)
   \<and> AnnouncementEvent announcement_fresh
       \<in> set (events (fst (watchForAnnouncements
            (env_announcements (Inr [announcement_fresh, announcement_stale]))
            (cached [''c1''] []))))
   \<and> publishDate announcement_stale
       = Instant (now (env_announcements (Inr [announcement_fresh, announcement_stale]))
                  - 49 * 3600000)
   \<and> startDate announcement_stale
       = Instant (now (env_announcements (Inr [announcement_fresh, announcement_stale]))
                  - 49 * 3600000)
   \<and> AnnouncementEvent announcement_stale
       \<notin> set (events (cached [''c1''] [] :: announcement state))
   \<and> AnnouncementEvent announcement_stale
       \<notin> set (events (fst (watchForAnnouncements
            (env_announcements (Inr [announcement_fresh, announcement_stale]))
            (cached [''c1''] []))))
   \<and> events (fst (watchForAnnouncements
            (env_announcements (Inr [announcement_fresh, announcement_stale]))
            (cached [''c1''] [])))
       = [AnnouncementEvent announcement_fresh]"
proof -
  let ?E = "env_announcements (Inr [announcement_fresh, announcement_stale])"
  let ?S = "cached [''c1''] [] :: announcement state"
  have h1: "getActiveClasses ?E = Inr ([] @ (''c1'', cs101) # [])"
    by (simp add: scenario_defs)
  have h2: "foldl (tryAnnouncements ?E) ?S [] = ?S" by simp
  have h3: "cache ?S [''c1''] = Some []" by (simp add: cached_def st0_def)
  have h4: "getClassAnnouncementsSafe ?E ''c1'' (getActiveUsersInClass ?E ''c1'') ?S
       = (Some [announcement_fresh, announcement_stale],
          place (GetClassAnnouncements ''k1'' ''c1'') ?S)"
    by (simp add: scenario_defs)
  have h5: "length [announcement_fresh, announcement_stale] \<noteq> length ([] :: announcement list)"
    by simp
  have h6: "announcement_fresh
       \<in> set (locateDifferenceInArrays [announcement_fresh, announcement_stale]
                 ([] :: announcement list))"
    by (simp add: locateDifferenceInArrays_def announcement_fresh_def announcement_stale_def)
  have h7: "AnnouncementEvent announcement_fresh \<notin> set (events ?S)"
    and h7': "AnnouncementEvent announcement_stale \<notin> set (events ?S)"
    by (simp_all add: cached_def st0_def)
  have h8: "publishDate announcement_fresh = Instant (now ?E - 1 * 3600000)"
    by (simp add: scenario_defs announcement_fresh_def)
  have h9: "publishDate announcement_stale = Instant (now ?E - 49 * 3600000)"
    "startDate announcement_stale = Instant (now ?E - 49 * 3600000)"
    by (simp_all add: scenario_defs announcement_stale_def)
  note t = isRecentAnnouncement_threshold[where E = ?E and cpre = "[]" and c = "''c1''"
      and crs = cs101 and cpost = "[]" and st = ?S and s = ?S and old = "[]"
      and nw = "[announcement_fresh, announcement_stale]"
      and sn = "place (GetClassAnnouncements ''k1'' ''c1'') ?S" and d = announcement_fresh
      and b = announcement_stale and sb = ?S]
  from t[THEN conjunct2, THEN conjunct2, THEN conjunct1] h1 h2 h3 h4 h5 h6 h7 h8
  have c1: "AnnouncementEvent announcement_fresh
       \<in> set (events (fst (watchForAnnouncements ?E ?S)))"
    by blast
  from t[THEN conjunct2, THEN conjunct2, THEN conjunct2, THEN conjunct1] h9 h7'
  have c2: "AnnouncementEvent announcement_stale
       \<notin> set (events (fst (watchForAnnouncements ?E ?S)))"
    by blast
  have c3: "events (fst (watchForAnnouncements ?E ?S)) = [AnnouncementEvent announcement_fresh]"
    by (simp add: scenario_defs watcher_defs locateDifferenceInArrays_def
        announcement_fresh_def announcement_stale_def isRecentAnnouncement_def)
  from h1 h2 h3 h4 h5 h6 h7 h7' h8 h9 c1 c2 c3 show ?thesis by blast
qed

section \<open>Properties of the grades watcher\<close>

lemma emitGrades_frame:
  "cache (fst (emitGrades E ck crs u fg gs st)) = cache st
   \<and> disk (fst (emitGrades E ck crs u fg gs st)) = disk st
   \<and> reports (fst (emitGrades E ck crs u fg gs st)) = reports st"
  by (induction gs arbitrary: st) (auto simp: Let_def split: sum.splits)

lemma emitGrades_append:
  "emitGrades E ck crs u fg (xs @ ys) st =
     (case emitGrades E ck crs u fg xs st of
        (st', None) \<Rightarrow> emitGrades E ck crs u fg ys st'
      | (st', Some e) \<Rightarrow> (st', Some e))"
  by (induction xs arbitrary: st) (auto simp: Let_def split: sum.splits)


text \<open>The events added by the loop and its outcome do not depend on the rest of the state.\<close>

lemma emitGrades_events_indep:
  "events st = events st' \<Longrightarrow>
   events (fst (emitGrades E ck crs u fg gs st)) = events (fst (emitGrades E ck crs u fg gs st'))
   \<and> snd (emitGrades E ck crs u fg gs st) = snd (emitGrades E ck crs u fg gs st')"
proof (induction gs arbitrary: st st')
  case Nil
  then show ?case by simp
next
  case (Cons g gs)
  show ?case
  proof (cases "js_truthy (userLastSeenDate g)")
    case True
    then show ?thesis using Cons.IH[OF Cons.prems] by simp
  next
    case False
    show ?thesis
    proof (cases "getUserId E ck")
      case (Inl e)
      then show ?thesis using False Cons.prems by (simp add: Let_def)
    next
      case (Inr h)
      show ?thesis
      proof (cases "getGradeFeedback E ck (assessment_id g) h")
        case (Inl e)
        then show ?thesis using False Inr Cons.prems by (simp add: Let_def)
      next
        case (Inr fb)
        let ?s = "\<lambda>s. emit (GradeEvent fb crs fg u)
                  (place (GetGradeFeedback ck (assessment_id g) h) (place (GetUserId ck) s))"
        have "events (?s st) = events (?s st')" using Cons.prems by simp
        from Cons.IH[OF this] False \<open>getUserId E ck = Inr h\<close> Inr
        show ?thesis by (simp add: Let_def)
      qed
    qed
  qed
qed























section \<open>A failure of the enrichment fetch\<close>

text \<open>
  Claim C4, as stated, fails: the loop over the new grades has no \<open>try\<close> of its own.
  The fetch returns the two new grades \<open>g1\<close> and \<open>g2\<close>, both published and unseen;
  the feedback of the first cannot be fetched, that of the second can. No event is
  emitted, neither for the first nor for the second, and the snapshot is replaced.
\<close>

theorem enrichment_failure_drops_sibling:
  "locateDifferenceInArrays (filter (\<lambda>g. status g = ''PUBLISHED'') [grade1, grade2])
       ([] :: grade list) = [grade1, grade2]
   \<and> userLastSeenDate grade2 = None
   \<and> getGradeFeedback
       (env_grades (Inr ([grade1, grade2], ''A''))
          (\<lambda>a. if a = ''as1'' then Inl Failure else Inr ''well done''))
       ''k1'' (assessment_id grade2) ''h1'' = Inr ''well done''
   \<and> events (fst (watchForGrades
       (env_grades (Inr ([grade1, grade2], ''A''))
          (\<lambda>a. if a = ''as1'' then Inl Failure else Inr ''well done''))
       (cached [''c1'', ''u1''] []))) = []
   \<and> cache (fst (watchForGrades
       (env_grades (Inr ([grade1, grade2], ''A''))
          (\<lambda>a. if a = ''as1'' then Inl Failure else Inr ''well done''))
       (cached [''c1'', ''u1''] []))) [''c1'', ''u1''] = Some [grade1, grade2]"
  by (simp add: scenario_defs watcher_defs grade1_def grade2_def locateDifferenceInArrays_def)

text \<open>
  Claim C4, amended: when the enrichment fetch (the user id or the grade feedback) of one
  new, unseen grade fails, the loop over the new grades of the target ends there with the
  thrown value. The events of the grades before it in the order of the difference stay
  emitted; the grade itself and every new grade after it in that order get no event. The
  snapshot of the target has already been replaced and persisted, and the handler of the
  target emits nothing, after which the tick goes on with the next target.
\<close>

theorem enrichment_failure_ends_loop:
  assumes "getUserCookie E u = Inr (Some ck)"
    and "getAllGrades E ck (slugId crs) = Inr (gs, fg)"
    and "cache st [c, u] = Some old"
    and "length (filter (\<lambda>g. status g = ''PUBLISHED'') gs) \<noteq> length old"
    and "locateDifferenceInArrays (filter (\<lambda>g. status g = ''PUBLISHED'') gs) old = pre @ g # post"
    and "snd (emitGrades E ck crs u fg pre st) = None"
    and "userLastSeenDate g = None"
    and "getUserId E ck = Inl e
         \<or> (\<exists>h. getUserId E ck = Inr h \<and> getGradeFeedback E ck (assessment_id g) h = Inl e)"
  shows "snd (gradesBody E (c, crs) u st) = Some e
     \<and> events (fst (gradesBody E (c, crs) u st)) = events (fst (emitGrades E ck crs u fg pre st))
     \<and> tryGrades E (c, crs) st u = catchFetchError e u (fst (gradesBody E (c, crs) u st))
     \<and> events (tryGrades E (c, crs) st u) = events (fst (emitGrades E ck crs u fg pre st))
     \<and> cache (tryGrades E (c, crs) st u) [c, u] = Some (filter (\<lambda>g. status g = ''PUBLISHED'') gs)
     \<and> disk (tryGrades E (c, crs) st u) (c @ ''/'' @ u @ ''.json'')
         = Some (Some (filter (\<lambda>g. status g = ''PUBLISHED'') gs))"
proof -
  let ?new = "filter (\<lambda>g. status g = ''PUBLISHED'') gs"
  let ?st2 = "writeCacheFile (c @ ''/'' @ u @ ''.json'') (Some ?new)
                (cache_set [c, u] (Some ?new) (place (GetAllGrades ck (slugId crs)) st))"
  have body: "gradesBody E (c, crs) u st = emitGrades E ck crs u fg (pre @ g # post) ?st2"
    using assms(1-5) by (simp add: gradesBody_def Let_def)
  have ev2: "events ?st2 = events st" by simp
  obtain s1 r1 where pre: "emitGrades E ck crs u fg pre ?st2 = (s1, r1)"
    by (cases "emitGrades E ck crs u fg pre ?st2")
  have r1: "r1 = None"
    using emitGrades_events_indep[OF ev2, of E ck crs u fg pre] pre assms(6) by simp
  have s1: "events s1 = events (fst (emitGrades E ck crs u fg pre st))"
    using emitGrades_events_indep[OF ev2, of E ck crs u fg pre] pre by simp
  obtain s2 where fail: "emitGrades E ck crs u fg (g # post) s1 = (s2, Some e)"
    and s2: "events s2 = events s1"
    using assms(7,8) by (auto simp: Let_def)
  have res: "gradesBody E (c, crs) u st = (s2, Some e)"
    unfolding body emitGrades_append using pre r1 fail by simp
  have fr: "cache s2 = cache ?st2" "disk s2 = disk ?st2"
    using emitGrades_frame[of E ck crs u fg "pre @ g # post" ?st2] res body by simp_all
  have t: "tryGrades E (c, crs) st u = catchFetchError e u s2"
    by (simp add: tryGrades_def res)
  show ?thesis
    by (simp add: res t s2 s1 fr)
qed

text \<open>
  On the scenario above: \<open>g1\<close> is the first of the difference and its feedback fails, so
  the target ends with no event, its snapshot replaced and on disk.
\<close>

theorem enrichment_failure_ends_loop_witness:
  "getUserCookie (env_grades (Inr ([grade1, grade2], ''A''))
          (\<lambda>a. if a = ''as1'' then Inl Failure else Inr ''well done'')) ''u1'' = Inr (Some ''k1'')
   \<and> getAllGrades (env_grades (Inr ([grade1, grade2], ''A''))
          (\<lambda>a. if a = ''as1'' then Inl Failure else Inr ''well done'')) ''k1'' (slugId cs101)
       = Inr ([grade1, grade2], ''A'')
   \<and> cache (cached [''c1'', ''u1''] [] :: grade state) [''c1'', ''u1''] = Some []
   \<and> length (filter (\<lambda>g. status g = ''PUBLISHED'') [grade1, grade2]) \<noteq> length ([] :: grade list)
   \<and> locateDifferenceInArrays (filter (\<lambda>g. status g = ''PUBLISHED'') [grade1, grade2])
       ([] :: grade list) = [] @ grade1 # [grade2]
   \<and> userLastSeenDate grade1 = None
   \<and> getUserId (env_grades (Inr ([grade1, grade2], ''A''))
          (\<lambda>a. if a = ''as1'' then Inl Failure else Inr ''well done'')) ''k1'' = Inr ''h1''
   \<and> getGradeFeedback (env_grades (Inr ([grade1, grade2], ''A''))
          (\<lambda>a. if a = ''as1'' then Inl Failure else Inr ''well done''))
        ''k1'' (assessment_id grade1) ''h1'' = Inl Failure
   \<and> snd (gradesBody (env_grades (Inr ([grade1, grade2], ''A''))
          (\<lambda>a. if a = ''as1'' then Inl Failure else Inr ''well done''))
        (''c1'', cs101) ''u1'' (cached [''c1'', ''u1''] [])) = Some Failure
   \<and> events (tryGrades (env_grades (Inr ([grade1, grade2], ''A''))
          (\<lambda>a. if a = ''as1'' then Inl Failure else Inr ''well done''))
        (''c1'', cs101) (cached [''c1'', ''u1''] []) ''u1'') = []
   \<and> disk (tryGrades (env_grades (Inr ([grade1, grade2], ''A''))
          (\<lambda>a. if a = ''as1'' then Inl Failure else Inr ''well done''))
        (''c1'', cs101) (cached [''c1'', ''u1''] []) ''u1'') ''c1/u1.json''
       = Some (Some [grade1, grade2])"
proof -
  let ?E = "env_grades (Inr ([grade1, grade2], ''A''))
          (\<lambda>a. if a = ''as1'' then Inl Failure else Inr ''well done'')"
  have h1: "getUserCookie ?E ''u1'' = Inr (Some ''k1'')" by (simp add: scenario_defs)
  have h2: "getAllGrades ?E ''k1'' (slugId cs101) = Inr ([grade1, grade2], ''A'')"
    by (simp add: scenario_defs)
  have h3: "cache (cached [''c1'', ''u1''] [] :: grade state) [''c1'', ''u1''] = Some []"
    by (simp add: cached_def st0_def)
  have h4: "length (filter (\<lambda>g. status g = ''PUBLISHED'') [grade1, grade2])
      \<noteq> length ([] :: grade list)"
    by (simp add: grade1_def grade2_def)
  have h5: "locateDifferenceInArrays (filter (\<lambda>g. status g = ''PUBLISHED'') [grade1, grade2])
       ([] :: grade list) = [] @ grade1 # [grade2]"
    by (simp add: grade1_def grade2_def locateDifferenceInArrays_def)
  have h6: "snd (emitGrades ?E ''k1'' cs101 ''u1'' ''A'' [] (cached [''c1'', ''u1''] [])) = None"
    by simp
  have h7: "userLastSeenDate grade1 = None" by (simp add: grade1_def)
  have h8a: "getUserId ?E ''k1'' = Inr ''h1''" by (simp add: scenario_defs)
  have h8b: "getGradeFeedback ?E ''k1'' (assessment_id grade1) ''h1'' = Inl Failure"
    by (simp add: scenario_defs grade1_def)
  from h8a h8b have h8: "getUserId ?E ''k1'' = Inl Failure
      \<or> (\<exists>h. getUserId ?E ''k1'' = Inr h
              \<and> getGradeFeedback ?E ''k1'' (assessment_id grade1) h = Inl Failure)"
    by blast
  have e0: "events (cached [''c1'', ''u1''] [] :: grade state) = []"
    by (simp add: cached_def st0_def)
  note r = enrichment_failure_ends_loop[OF h1 h2 h3 h4 h5 h6 h7 h8]
  from r have c1: "snd (gradesBody ?E (''c1'', cs101) ''u1'' (cached [''c1'', ''u1''] []))
      = Some Failure"
    by (rule conjunct1)
  from r[THEN conjunct2, THEN conjunct2, THEN conjunct2, THEN conjunct1] e0
  have c2: "events (tryGrades ?E (''c1'', cs101) (cached [''c1'', ''u1''] []) ''u1'') = []"
    by simp
  from r[THEN conjunct2, THEN conjunct2, THEN conjunct2, THEN conjunct2, THEN conjunct2]
  have c3: "disk (tryGrades ?E (''c1'', cs101) (cached [''c1'', ''u1''] []) ''u1'') ''c1/u1.json''
          = Some (Some [grade1, grade2])"
    by (simp add: grade1_def grade2_def)
  from h1 h2 h3 h4 h5 h7 h8a h8b c1 c2 c3 show ?thesis by blast
qed


section \<open>The requests of a tick\<close>

lemma foldl_requests_mono:
  assumes "\<And>s x. set (requests s) \<subseteq> set (requests (f s x))"
  shows "set (requests st) \<subseteq> set (requests (foldl f st xs))"
proof (induction xs arbitrary: st)
  case Nil
  then show ?case by simp
next
  case (Cons x xs)
  have "set (requests st) \<subseteq> set (requests (f st x))" by (rule assms)
  also have "\<dots> \<subseteq> set (requests (foldl f (f st x) xs))" by (rule Cons.IH)
  finally show ?case by simp
qed

lemma foldl_requests_member:
  assumes mono: "\<And>s x. set (requests s) \<subseteq> set (requests (f s x))"
      and step: "\<And>s. r \<in> set (requests (f s x))"
      and x: "x \<in> set xs"
  shows "r \<in> set (requests (foldl f st xs))"
  using x
proof (induction xs arbitrary: st)
  case Nil
  then show ?case by simp
next
  case (Cons y ys)
  show ?case
  proof (cases "x = y")
    case True
    have "r \<in> set (requests (f st y))" using step True by simp
    then show ?thesis
      using foldl_requests_mono[of f "f st y" ys, OF mono] by auto
  next
    case False
    with Cons.prems have "x \<in> set ys" by simp
    then show ?thesis using Cons.IH[of "f st y"] by simp
  qed
qed

lemma getClassAnnouncementsSafe_requests_mono:
  "set (requests st) \<subseteq> set (requests (snd (getClassAnnouncementsSafe E c us st)))"
proof (induction us arbitrary: st)
  case Nil
  then show ?case by simp
next
  case (Cons u us)
  show ?case
  proof (cases "getUserCookie E u")
    case (Inl e)
    then show ?thesis using Cons.IH[of "catchFetchError e u st"] by simp
  next
    case (Inr cko)
    show ?thesis
    proof (cases cko)
      case None
      then show ?thesis using Inr Cons.IH[of st] by simp
    next
      case (Some ck)
      show ?thesis
      proof (cases "getClassAnnouncements E ck c")
        case (Inl e)
        then show ?thesis
          using Inr Some
            Cons.IH[of "catchFetchError e u (place (GetClassAnnouncements ck c) st)"]
          by auto
      next
        case (Inr anns)
        then show ?thesis using \<open>getUserCookie E u = Inr cko\<close> Some by auto
      qed
    qed
  qed
qed

lemma getClassAnnouncementsSafe_requests:
  "u \<in> set us \<Longrightarrow> getUserCookie E u = Inr (Some ck) \<Longrightarrow>
   \<exists>ck'. GetClassAnnouncements ck' c
           \<in> set (requests (snd (getClassAnnouncementsSafe E c us st)))"
proof (induction us arbitrary: st)
  case Nil
  then show ?case by simp
next
  case (Cons v us)
  show ?case
  proof (cases "getUserCookie E v")
    case (Inl e)
    with Cons.prems have "u \<in> set us" by auto
    then show ?thesis using Inl Cons.IH[of "catchFetchError e v st"] Cons.prems by simp
  next
    case (Inr cko)
    show ?thesis
    proof (cases cko)
      case None
      with Cons.prems Inr have "u \<in> set us" by auto
      then show ?thesis using Inr None Cons.IH[of st] Cons.prems by simp
    next
      case (Some ck1)
      show ?thesis
      proof (cases "getClassAnnouncements E ck1 c")
        case (Inl e)
        have "GetClassAnnouncements ck1 c
            \<in> set (requests (catchFetchError e v (place (GetClassAnnouncements ck1 c) st)))"
          by simp
        then have "GetClassAnnouncements ck1 c
            \<in> set (requests (snd (getClassAnnouncementsSafe E c us
                       (catchFetchError e v (place (GetClassAnnouncements ck1 c) st)))))"
          using getClassAnnouncementsSafe_requests_mono by blast
        then show ?thesis using Inl \<open>getUserCookie E v = Inr cko\<close> Some by auto
      next
        case (Inr anns)
        then show ?thesis using \<open>getUserCookie E v = Inr cko\<close> Some by auto
      qed
    qed
  qed
qed

lemma tryAnnouncements_requests:
  "requests (tryAnnouncements E st entry)
     = (if getActiveUsersInClass E (fst entry) = [] then requests st
        else requests (snd (getClassAnnouncementsSafe E (fst entry)
                              (getActiveUsersInClass E (fst entry)) st)))"
  by (auto simp: tryAnnouncements_def announcementsBody_def Let_def split: option.splits)

lemma tryAnnouncements_requests_mono:
  "set (requests st) \<subseteq> set (requests (tryAnnouncements E st entry))"
  using getClassAnnouncementsSafe_requests_mono
  by (simp add: tryAnnouncements_requests)

lemma announcements_fetch_occurs:
  assumes "getActiveClasses E = Inr cs" "(c, crs) \<in> set cs"
    "u \<in> set (getActiveUsersInClass E c)" "getUserCookie E u = Inr (Some ck)"
  shows "\<exists>ck'. GetClassAnnouncements ck' c \<in> set (requests (fst (watchForAnnouncements E st)))"
proof -
  have ne: "getActiveUsersInClass E c \<noteq> []" using assms(3) by auto
  obtain pre post where cs: "cs = pre @ (c, crs) # post"
    using assms(2) by (meson split_list)
  let ?s = "foldl (tryAnnouncements E) st pre"
  obtain ck' where "GetClassAnnouncements ck' c
      \<in> set (requests (snd (getClassAnnouncementsSafe E c (getActiveUsersInClass E c) ?s)))"
    using getClassAnnouncementsSafe_requests[OF assms(3,4)] by blast
  then have "GetClassAnnouncements ck' c \<in> set (requests (tryAnnouncements E ?s (c, crs)))"
    using ne by (simp add: tryAnnouncements_requests)
  then have "GetClassAnnouncements ck' c
      \<in> set (requests (foldl (tryAnnouncements E) (tryAnnouncements E ?s (c, crs)) post))"
    using foldl_requests_mono[of "tryAnnouncements E", OF tryAnnouncements_requests_mono]
    by blast
  then show ?thesis using assms(1) cs by (auto simp: watchForAnnouncements_def)
qed

lemma emitGrades_requests_mono:
  "set (requests st) \<subseteq> set (requests (fst (emitGrades E ck crs u fg gs st)))"
proof (induction gs arbitrary: st)
  case Nil
  then show ?case by simp
next
  case (Cons g gs)
  show ?case
  proof (cases "js_truthy (userLastSeenDate g)")
    case True
    then show ?thesis using Cons.IH[of st] by simp
  next
    case False
    show ?thesis
    proof (cases "getUserId E ck")
      case (Inl e)
      then show ?thesis using False by (auto simp: Let_def)
    next
      case (Inr h)
      show ?thesis
      proof (cases "getGradeFeedback E ck (assessment_id g) h")
        case (Inl e)
        then show ?thesis using False Inr by (auto simp: Let_def)
      next
        case (Inr fb)
        with False \<open>getUserId E ck = Inr h\<close>
        show ?thesis
          using Cons.IH[of "emit (GradeEvent fb crs fg u)
                  (place (GetGradeFeedback ck (assessment_id g) h) (place (GetUserId ck) st))"]
          by (auto simp: Let_def)
      qed
    qed
  qed
qed

lemma gradesBody_requests_mono:
  "set (requests st) \<subseteq> set (requests (fst (gradesBody E entry u st)))"
proof -
  have *: "\<And>s gs ck fg. set (requests st) \<subseteq> set (requests s) \<Longrightarrow>
     set (requests st) \<subseteq> set (requests (fst (emitGrades E ck (snd entry) u fg gs s)))"
    using emitGrades_requests_mono by blast
  show ?thesis
    unfolding gradesBody_def Let_def
    by (auto split: sum.splits option.splits intro!: *[THEN subsetD])
qed

lemma gradesBody_requests:
  "getUserCookie E u = Inr (Some ck) \<Longrightarrow>
   GetAllGrades ck (slugId (snd entry)) \<in> set (requests (fst (gradesBody E entry u st)))"
proof -
  assume ck: "getUserCookie E u = Inr (Some ck)"
  have *: "\<And>s gs fg. GetAllGrades ck (slugId (snd entry)) \<in> set (requests s) \<Longrightarrow>
     GetAllGrades ck (slugId (snd entry))
       \<in> set (requests (fst (emitGrades E ck (snd entry) u fg gs s)))"
    using emitGrades_requests_mono by blast
  show ?thesis
    unfolding gradesBody_def Let_def using ck
    by (auto split: sum.splits option.splits intro!: *)
qed

lemma tryGrades_requests:
  "requests (tryGrades E entry st u) = requests (fst (gradesBody E entry u st))"
  by (auto simp: tryGrades_def split: prod.splits option.splits)

lemma tryGrades_requests_mono: "set (requests st) \<subseteq> set (requests (tryGrades E entry st u))"
  unfolding tryGrades_requests by (rule gradesBody_requests_mono)

lemma gradesCourse_requests_mono: "set (requests st) \<subseteq> set (requests (gradesCourse E st entry))"
  unfolding gradesCourse_def
  by (rule foldl_requests_mono) (rule tryGrades_requests_mono)

lemma grades_fetch_occurs:
  assumes "getActiveClasses E = Inr cs" "(c, crs) \<in> set cs"
    "u \<in> set (getActiveUsersInClass E c)" "getUserCookie E u = Inr (Some ck)"
  shows "GetAllGrades ck (slugId crs) \<in> set (requests (fst (watchForGrades E st)))"
proof -
  have step: "GetAllGrades ck (slugId crs) \<in> set (requests (gradesCourse E s (c, crs)))" for s
    unfolding gradesCourse_def
  proof (rule foldl_requests_member[where x = u])
    show "\<And>s x. set (requests s) \<subseteq> set (requests (tryGrades E (c, crs) s x))"
      by (rule tryGrades_requests_mono)
    show "\<And>s. GetAllGrades ck (slugId crs) \<in> set (requests (tryGrades E (c, crs) s u))"
      using gradesBody_requests[OF assms(4), of "(c, crs)"] by (simp add: tryGrades_requests)
    show "u \<in> set (getActiveUsersInClass E (fst (c, crs)))" using assms(3) by simp
  qed
  have "GetAllGrades ck (slugId crs) \<in> set (requests (foldl (gradesCourse E) st cs))"
    by (rule foldl_requests_member[where x = "(c, crs)"])
       (rule gradesCourse_requests_mono, rule step, rule assms(2))
  then show ?thesis using assms(1) by (simp add: watchForGrades_def)
qed

lemma inboxForum_requests_mono:
  "set (requests st) \<subseteq> set (requests (fst (inboxForum E u ck f st)))"
  by (auto simp: inboxForum_def Let_def split: sum.splits option.splits)

lemma inboxForums_requests_mono:
  "set (requests st) \<subseteq> set (requests (fst (inboxForums E u ck fs st)))"
proof (induction fs arbitrary: st)
  case Nil
  then show ?case by simp
next
  case (Cons f fs)
  obtain s' r where b: "inboxForum E u ck f st = (s', r)" by (cases "inboxForum E u ck f st")
  have m: "set (requests st) \<subseteq> set (requests s')"
    using inboxForum_requests_mono[of st E u ck f] b by simp
  show ?case
  proof (cases r)
    case None
    then show ?thesis using b m Cons.IH[of s'] by auto
  next
    case (Some e)
    then show ?thesis using b m by auto
  qed
qed

lemma inboxBody_requests_mono:
  "set (requests st) \<subseteq> set (requests (fst (inboxBody E u st)))"
proof -
  have *: "\<And>s ck fs. set (requests st) \<subseteq> set (requests s) \<Longrightarrow>
     set (requests st) \<subseteq> set (requests (fst (inboxForums E u ck fs s)))"
    using inboxForums_requests_mono by blast
  show ?thesis
    unfolding inboxBody_def Let_def
    by (auto split: sum.splits option.splits intro!: *[THEN subsetD])
qed

lemma inboxBody_requests:
  "getUserCookie E u = Inr (Some ck) \<Longrightarrow>
   GetUserInbox ck \<in> set (requests (fst (inboxBody E u st)))"
proof -
  assume ck: "getUserCookie E u = Inr (Some ck)"
  have *: "\<And>s fs. GetUserInbox ck \<in> set (requests s) \<Longrightarrow>
     GetUserInbox ck \<in> set (requests (fst (inboxForums E u ck fs s)))"
    using inboxForums_requests_mono by blast
  show ?thesis
    unfolding inboxBody_def Let_def using ck
    by (auto split: sum.splits option.splits intro!: *)
qed

lemma tryInbox_requests: "requests (tryInbox E st u) = requests (fst (inboxBody E u st))"
  by (auto simp: tryInbox_def split: prod.splits option.splits)

lemma inbox_fetch_occurs:
  assumes "getAllActiveUsers E = Inr us" "u \<in> set us" "getUserCookie E u = Inr (Some ck)"
  shows "GetUserInbox ck \<in> set (requests (fst (watchForInboxMessages E st)))"
proof -
  have "GetUserInbox ck \<in> set (requests (foldl (tryInbox E) st us))"
  proof (rule foldl_requests_member[where x = u])
    show "\<And>s x. set (requests s) \<subseteq> set (requests (tryInbox E s x))"
      unfolding tryInbox_requests by (rule inboxBody_requests_mono)
    show "\<And>s. GetUserInbox ck \<in> set (requests (tryInbox E s u))"
      unfolding tryInbox_requests by (rule inboxBody_requests[OF assms(3)])
    show "u \<in> set us" by (rule assms(2))
  qed
  then show ?thesis using assms(1) by (simp add: watchForInboxMessages_def)
qed

section \<open>The gate of the inbox watcher\<close>

lemma foldl_requests_prefix:
  assumes "\<And>s x. \<exists>rest. requests (f s x) = requests s @ rest"
  shows "\<exists>rest. requests (foldl f st xs) = requests st @ rest"
proof (induction xs arbitrary: st)
  case Nil
  then show ?case by simp
next
  case (Cons x xs)
  obtain r1 where r1: "requests (f st x) = requests st @ r1" using assms by blast
  obtain r2 where "requests (foldl f (f st x) xs) = requests (f st x) @ r2"
    using Cons.IH by blast
  then show ?case using r1 by simp
qed

lemma inboxForum_requests_prefix:
  "\<exists>rest. requests (fst (inboxForum E u ck f st)) = requests st @ rest"
  by (auto simp: inboxForum_def Let_def split: sum.splits option.splits)

lemma inboxForums_requests_prefix:
  "\<exists>rest. requests (fst (inboxForums E u ck fs st)) = requests st @ rest"
proof (induction fs arbitrary: st)
  case Nil
  then show ?case by simp
next
  case (Cons f fs)
  obtain s' r where b: "inboxForum E u ck f st = (s', r)" by (cases "inboxForum E u ck f st")
  obtain r1 where r1: "requests s' = requests st @ r1"
    using inboxForum_requests_prefix[of E u ck f st] b by auto
  show ?case
  proof (cases r)
    case None
    obtain r2 where "requests (fst (inboxForums E u ck fs s')) = requests s' @ r2"
      using Cons.IH by blast
    then show ?thesis using b None r1 by simp
  next
    case (Some e)
    then show ?thesis using b r1 by simp
  qed
qed

lemma inboxBody_requests_prefix:
  "\<exists>rest. requests (fst (inboxBody E u st)) = requests st @ rest"
proof (cases "getUserCookie E u")
  case (Inl e)
  then show ?thesis by (simp add: inboxBody_def)
next
  case (Inr cko)
  show ?thesis
  proof (cases cko)
    case None
    then show ?thesis using Inr by (simp add: inboxBody_def)
  next
    case (Some ck)
    show ?thesis
    proof (cases "getUserInbox E ck")
      case (Inl e)
      then show ?thesis using Inr Some by (simp add: inboxBody_def Let_def)
    next
      case (Inr fs)
      obtain r where "requests (fst (inboxForums E u ck fs (place (GetUserInbox ck) st)))
          = requests (place (GetUserInbox ck) st) @ r"
        using inboxForums_requests_prefix by blast
      then show ?thesis using \<open>getUserCookie E u = Inr cko\<close> Some Inr
        by (simp add: inboxBody_def Let_def)
    qed
  qed
qed

lemma tryInbox_requests_prefix:
  "\<exists>rest. requests (tryInbox E st u) = requests st @ rest"
  using inboxBody_requests_prefix[of E u st] by (simp add: tryInbox_requests)

lemma inboxForums_append:
  "inboxForums E u ck (xs @ ys) st =
     (case inboxForums E u ck xs st of
        (st', Some e) \<Rightarrow> (st', Some e)
      | (st', None) \<Rightarrow> inboxForums E u ck ys st')"
  by (induction xs arbitrary: st) (auto split: prod.splits option.splits)

text \<open>
  The tick, seen from the turn of one forum of one user: \<open>s\<close> is the state in which
  the turn of the forum starts, after the users before this one and the forums before
  this one, none of which has thrown.
\<close>

lemma inbox_tick_at_forum:
  assumes "getAllActiveUsers E = Inr (upre @ u # upost)"
    and "getUserCookie E u = Inr (Some ck)"
    and "getUserInbox E ck = Inr (fpre @ (f, n) # fpost)"
    and "inboxForums E u ck fpre (place (GetUserInbox ck) (foldl (tryInbox E) st upre)) = (s, None)"
  shows "fst (watchForInboxMessages E st) =
     foldl (tryInbox E)
       (case inboxForum E u ck (f, n) s of
          (s', Some e) \<Rightarrow> catchFetchError e u s'
        | (s', None) \<Rightarrow>
            (case inboxForums E u ck fpost s' of
               (s'', Some e) \<Rightarrow> catchFetchError e u s''
             | (s'', None) \<Rightarrow> s''))
       upost"
proof -
  let ?s0 = "foldl (tryInbox E) st upre"
  have "tryInbox E ?s0 u =
      (case inboxForum E u ck (f, n) s of
          (s', Some e) \<Rightarrow> catchFetchError e u s'
        | (s', None) \<Rightarrow>
            (case inboxForums E u ck fpost s' of
               (s'', Some e) \<Rightarrow> catchFetchError e u s''
             | (s'', None) \<Rightarrow> s''))"
    using assms(2,3,4)
    by (auto simp: tryInbox_def inboxBody_def Let_def inboxForums_append
        split: prod.splits option.splits)
  then show ?thesis using assms(1) by (simp add: watchForInboxMessages_def)
qed

lemma inbox_tick_skips:
  assumes "getAllActiveUsers E = Inr (upre @ u # upost)"
    and "getUserCookie E u = Inr (Some ck)"
    and "getUserInbox E ck = Inr (fpre @ (f, n) # fpost)"
    and "inboxForums E u ck fpre (place (GetUserInbox ck) (foldl (tryInbox E) st upre)) = (s, None)"
    and "cache s [u, f] = Some old"
    and "n = 0 \<or> n = int (length (filter (\<lambda>p. \<not> isRead p) old))"
  shows "fst (watchForInboxMessages E st) =
     foldl (tryInbox E)
       (case inboxForums E u ck fpost s of
               (s'', Some e) \<Rightarrow> catchFetchError e u s''
             | (s'', None) \<Rightarrow> s'')
       upost"
proof -
  have "inboxForum E u ck (f, n) s = (s, None)"
    using assms(5,6) by (auto simp: inboxForum_def getUnreadMessagesCount_def Let_def)
  then show ?thesis using inbox_tick_at_forum[OF assms(1-4)] by simp
qed

lemma inbox_tick_fetches:
  assumes "getAllActiveUsers E = Inr (upre @ u # upost)"
    and "getUserCookie E u = Inr (Some ck)"
    and "getUserInbox E ck = Inr (fpre @ (f, n) # fpost)"
    and "inboxForums E u ck fpre (place (GetUserInbox ck) (foldl (tryInbox E) st upre)) = (s, None)"
    and "cache s [u, f] = None
       \<or> (\<exists>old. cache s [u, f] = Some old \<and> n \<noteq> 0
              \<and> n \<noteq> int (length (filter (\<lambda>p. \<not> isRead p) old)))"
  shows "\<exists>rest. requests (fst (watchForInboxMessages E st))
            = requests s @ GetPostsForInboxForum ck f # rest"
proof -
  obtain s' r where t: "inboxForum E u ck (f, n) s = (s', r)"
    by (cases "inboxForum E u ck (f, n) s")
  have rq: "requests s' = requests s @ [GetPostsForInboxForum ck f]"
    using assms(5) t
    by (auto simp: inboxForum_def getUnreadMessagesCount_def Let_def
        split: sum.splits option.splits if_splits)
  let ?mid = "case inboxForum E u ck (f, n) s of
          (s', Some e) \<Rightarrow> catchFetchError e u s'
        | (s', None) \<Rightarrow>
            (case inboxForums E u ck fpost s' of
               (s'', Some e) \<Rightarrow> catchFetchError e u s''
             | (s'', None) \<Rightarrow> s'')"
  have "\<exists>r1. requests ?mid = requests s' @ r1"
  proof (cases r)
    case (Some e)
    then show ?thesis using t by simp
  next
    case None
    obtain r2 where "requests (fst (inboxForums E u ck fpost s')) = requests s' @ r2"
      using inboxForums_requests_prefix by blast
    then show ?thesis using t None
      by (cases "inboxForums E u ck fpost s'") (auto split: option.splits)
  qed
  then obtain r1 where r1: "requests ?mid = requests s' @ r1" by blast
  obtain r3 where "requests (foldl (tryInbox E) ?mid upost) = requests ?mid @ r3"
    using foldl_requests_prefix[of "tryInbox E" ?mid upost] tryInbox_requests_prefix by blast
  then show ?thesis
    using inbox_tick_at_forum[OF assms(1-4)] r1 rq by simp
qed

text \<open>
  Claim C7: with a snapshot cached for the user and the forum, the turn for the forum
  ends at once, leaving the state as it is and placing no request, when the forum's
  \<open>unreadCount\<close> is zero or equals the number of cached posts whose read flag is false;
  for any other \<open>unreadCount\<close> the request for the posts of the forum is placed. With no
  snapshot cached the request is placed whatever the \<open>unreadCount\<close>. So it is in the
  tick: let the turn of a forum of a user come, after the users and the forums before it,
  in the state \<open>s\<close>. When the turn is skipped, the tick ends in the state in which the rest
  of the tick ends when started from \<open>s\<close> itself, so that the turn has placed no request
  and changed nothing. When it is not skipped, the requests of the tick are those placed
  up to \<open>s\<close>, then the request for the posts of the forum, then those of the rest of the
  tick.
\<close>

theorem inbox_post_fetch_gate:
  "(cache st [u, f] = Some old \<and> (n = 0 \<or> n = int (length (filter (\<lambda>p. \<not> isRead p) old)))
      \<longrightarrow> inboxForum E u ck (f, n) st = (st, None))
   \<and> (cache st [u, f] = Some old \<and> n \<noteq> 0 \<and> n \<noteq> int (length (filter (\<lambda>p. \<not> isRead p) old))
      \<longrightarrow> requests (fst (inboxForum E u ck (f, n) st))
            = requests st @ [GetPostsForInboxForum ck f])
   \<and> (cache st [u, f] = None
      \<longrightarrow> requests (fst (inboxForum E u ck (f, n) st))
            = requests st @ [GetPostsForInboxForum ck f])
   \<and> (getAllActiveUsers E = Inr (upre @ wu # upost)
      \<and> getUserCookie E wu = Inr (Some wck)
      \<and> getUserInbox E wck = Inr (fpre @ (wfo, wn) # fpost)
      \<and> inboxForums E wu wck fpre (place (GetUserInbox wck) (foldl (tryInbox E) ws upre))
          = (s, None)
      \<and> cache s [wu, wfo] = Some wold
      \<and> (wn = 0 \<or> wn = int (length (filter (\<lambda>p. \<not> isRead p) wold)))
     \<longrightarrow> fst (watchForInboxMessages E ws) =
           foldl (tryInbox E)
             (case inboxForums E wu wck fpost s of
                (s'', Some e) \<Rightarrow> catchFetchError e wu s''
              | (s'', None) \<Rightarrow> s'')
             upost)
   \<and> (getAllActiveUsers E = Inr (upre @ wu # upost)
      \<and> getUserCookie E wu = Inr (Some wck)
      \<and> getUserInbox E wck = Inr (fpre @ (wfo, wn) # fpost)
      \<and> inboxForums E wu wck fpre (place (GetUserInbox wck) (foldl (tryInbox E) ws upre))
          = (s, None)
      \<and> (cache s [wu, wfo] = None
          \<or> (\<exists>wold. cache s [wu, wfo] = Some wold \<and> wn \<noteq> 0
                 \<and> wn \<noteq> int (length (filter (\<lambda>p. \<not> isRead p) wold))))
     \<longrightarrow> (\<exists>rest. requests (fst (watchForInboxMessages E ws))
                   = requests s @ GetPostsForInboxForum wck wfo # rest))"
proof (intro conjI impI)
  assume "cache st [u, f] = Some old
      \<and> (n = 0 \<or> n = int (length (filter (\<lambda>p. \<not> isRead p) old)))"
  then show "inboxForum E u ck (f, n) st = (st, None)"
    by (auto simp: inboxForum_def getUnreadMessagesCount_def Let_def)
next
  assume "cache st [u, f] = Some old \<and> n \<noteq> 0
      \<and> n \<noteq> int (length (filter (\<lambda>p. \<not> isRead p) old))"
  then show "requests (fst (inboxForum E u ck (f, n) st))
            = requests st @ [GetPostsForInboxForum ck f]"
    by (auto simp: inboxForum_def getUnreadMessagesCount_def Let_def
        split: sum.splits option.splits)
next
  assume "cache st [u, f] = None"
  then show "requests (fst (inboxForum E u ck (f, n) st))
            = requests st @ [GetPostsForInboxForum ck f]"
    by (auto simp: inboxForum_def Let_def split: sum.splits option.splits)
next
  assume "getAllActiveUsers E = Inr (upre @ wu # upost)
      \<and> getUserCookie E wu = Inr (Some wck)
      \<and> getUserInbox E wck = Inr (fpre @ (wfo, wn) # fpost)
      \<and> inboxForums E wu wck fpre (place (GetUserInbox wck) (foldl (tryInbox E) ws upre))
          = (s, None)
      \<and> cache s [wu, wfo] = Some wold
      \<and> (wn = 0 \<or> wn = int (length (filter (\<lambda>p. \<not> isRead p) wold)))"
  then show "fst (watchForInboxMessages E ws) =
           foldl (tryInbox E)
             (case inboxForums E wu wck fpost s of
                (s'', Some e) \<Rightarrow> catchFetchError e wu s''
              | (s'', None) \<Rightarrow> s'')
             upost"
    using inbox_tick_skips[of E upre wu upost wck fpre wfo wn fpost ws s wold] by blast
next
  assume "getAllActiveUsers E = Inr (upre @ wu # upost)
      \<and> getUserCookie E wu = Inr (Some wck)
      \<and> getUserInbox E wck = Inr (fpre @ (wfo, wn) # fpost)
      \<and> inboxForums E wu wck fpre (place (GetUserInbox wck) (foldl (tryInbox E) ws upre))
          = (s, None)
      \<and> (cache s [wu, wfo] = None
          \<or> (\<exists>wold. cache s [wu, wfo] = Some wold \<and> wn \<noteq> 0
                 \<and> wn \<noteq> int (length (filter (\<lambda>p. \<not> isRead p) wold))))"
  then show "\<exists>rest. requests (fst (watchForInboxMessages E ws))
                   = requests s @ GetPostsForInboxForum wck wfo # rest"
    using inbox_tick_fetches[of E upre wu upost wck fpre wfo wn fpost ws s] by blast
qed

text \<open>
  One unread post is cached for the forum \<open>f1\<close> of \<open>u1\<close>: an \<open>unreadCount\<close> of 0 or
  of 1 places no request, an \<open>unreadCount\<close> of 2 places one; with nothing cached an
  \<open>unreadCount\<close> of 0 places one as well. In a tick in which the inbox of \<open>u1\<close> lists
  \<open>f1\<close> with one unread post and \<open>f2\<close>, for which nothing is cached, with none, the
  turn of \<open>f1\<close> is skipped and the turn of \<open>f2\<close> places its request: the requests of the
  tick are that for the inbox and that for the posts of \<open>f2\<close>.
\<close>

theorem inbox_post_fetch_gate_witness:
  "cache (cached [''u1'', ''f1''] [post_unread]) [''u1'', ''f1''] = Some [post_unread]
   \<and> (1::int) = int (length (filter (\<lambda>p. \<not> isRead p) [post_unread]))
   \<and> requests (fst (inboxForum (env_inbox [] (\<lambda>f. Inr [post_unread, post_read])) ''u1'' ''k1''
        (''f1'', 0) (cached [''u1'', ''f1''] [post_unread]))) = []
   \<and> requests (fst (inboxForum (env_inbox [] (\<lambda>f. Inr [post_unread, post_read])) ''u1'' ''k1''
        (''f1'', 1) (cached [''u1'', ''f1''] [post_unread]))) = []
   \<and> (2::int) \<noteq> 0 \<and> (2::int) \<noteq> int (length (filter (\<lambda>p. \<not> isRead p) [post_unread]))
   \<and> requests (fst (inboxForum (env_inbox [] (\<lambda>f. Inr [post_unread, post_read])) ''u1'' ''k1''
        (''f1'', 2) (cached [''u1'', ''f1''] [post_unread])))
       = [GetPostsForInboxForum ''k1'' ''f1'']
   \<and> cache (st0 :: post state) [''u1'', ''f1''] = None
   \<and> requests (fst (inboxForum (env_inbox [] (\<lambda>f. Inr [post_unread, post_read])) ''u1'' ''k1''
        (''f1'', 0) st0)) = [GetPostsForInboxForum ''k1'' ''f1'']
   \<and> getAllActiveUsers (env_inbox [(''f1'', 1), (''f2'', 0)] (\<lambda>f. Inr [post_unread, post_read]))
       = Inr ([] @ ''u1'' # [])
   \<and> getUserCookie (env_inbox [(''f1'', 1), (''f2'', 0)] (\<lambda>f. Inr [post_unread, post_read]))
        ''u1'' = Inr (Some ''k1'')
   \<and> getUserInbox (env_inbox [(''f1'', 1), (''f2'', 0)] (\<lambda>f. Inr [post_unread, post_read]))
        ''k1'' = Inr ([] @ (''f1'', 1) # [(''f2'', 0)])
   \<and> inboxForums (env_inbox [(''f1'', 1), (''f2'', 0)] (\<lambda>f. Inr [post_unread, post_read]))
        ''u1'' ''k1'' [(''f1'', 1)]
        (place (GetUserInbox ''k1'') (cached [''u1'', ''f1''] [post_unread]))
       = (place (GetUserInbox ''k1'') (cached [''u1'', ''f1''] [post_unread]), None)
   \<and> cache (place (GetUserInbox ''k1'') (cached [''u1'', ''f1''] [post_unread]))
        [''u1'', ''f1''] = Some [post_unread]
   \<and> cache (place (GetUserInbox ''k1'') (cached [''u1'', ''f1''] [post_unread]))
        [''u1'', ''f2''] = None
   \<and> fst (watchForInboxMessages
        (env_inbox [(''f1'', 1), (''f2'', 0)] (\<lambda>f. Inr [post_unread, post_read]))
        (cached [''u1'', ''f1''] [post_unread]))
       = foldl (tryInbox (env_inbox [(''f1'', 1), (''f2'', 0)] (\<lambda>f. Inr [post_unread, post_read])))
          (case inboxForums
                  (env_inbox [(''f1'', 1), (''f2'', 0)] (\<lambda>f. Inr [post_unread, post_read]))
                  ''u1'' ''k1'' [(''f2'', 0)]
                  (place (GetUserInbox ''k1'') (cached [''u1'', ''f1''] [post_unread])) of
             (s'', Some e) \<Rightarrow> catchFetchError e ''u1'' s''
           | (s'', None) \<Rightarrow> s'')
          []
   \<and> (\<exists>rest. requests (fst (watchForInboxMessages
        (env_inbox [(''f1'', 1), (''f2'', 0)] (\<lambda>f. Inr [post_unread, post_read]))
        (cached [''u1'', ''f1''] [post_unread])))
       = requests (place (GetUserInbox ''k1'') (cached [''u1'', ''f1''] [post_unread]))
           @ GetPostsForInboxForum ''k1'' ''f2'' # rest)
   \<and> requests (fst (watchForInboxMessages
        (env_inbox [(''f1'', 1), (''f2'', 0)] (\<lambda>f. Inr [post_unread, post_read]))
        (cached [''u1'', ''f1''] [post_unread])))
       = [GetUserInbox ''k1'', GetPostsForInboxForum ''k1'' ''f2'']"
proof -
  let ?E = "env_inbox [] (\<lambda>f. Inr [post_unread, post_read])"
  let ?W = "env_inbox [(''f1'', 1), (''f2'', 0)] (\<lambda>f. Inr [post_unread, post_read])"
  let ?S = "cached [''u1'', ''f1''] [post_unread]"
  let ?P = "place (GetUserInbox ''k1'') ?S"
  have a1: "cache ?S [''u1'', ''f1''] = Some [post_unread]" by (simp add: cached_def st0_def)
  have a2: "(1::int) = int (length (filter (\<lambda>p. \<not> isRead p) [post_unread]))"
    by (simp add: post_unread_def)
  have a3: "(2::int) \<noteq> 0 \<and> (2::int) \<noteq> int (length (filter (\<lambda>p. \<not> isRead p) [post_unread]))"
    by (simp add: post_unread_def)
  have a4: "cache (st0 :: post state) [''u1'', ''f1''] = None" by (simp add: st0_def)
  have r0: "requests ?S = []" "requests (st0 :: post state) = []"
    by (simp_all add: cached_def st0_def)
  note t = inbox_post_fetch_gate[where E = ?E and u = "''u1''" and f = "''f1''"
      and ck = "''k1''" and old = "[post_unread]"]
  from t[where st = ?S and n = 0, THEN conjunct1] a1 r0
  have c1: "requests (fst (inboxForum ?E ''u1'' ''k1'' (''f1'', 0) ?S)) = []" by simp
  from t[where st = ?S and n = 1, THEN conjunct1] a1 a2 r0
  have c2: "requests (fst (inboxForum ?E ''u1'' ''k1'' (''f1'', 1) ?S)) = []" by simp
  from t[where st = ?S and n = 2, THEN conjunct2, THEN conjunct1] a1 a3 r0
  have c3: "requests (fst (inboxForum ?E ''u1'' ''k1'' (''f1'', 2) ?S))
      = [GetPostsForInboxForum ''k1'' ''f1'']" by simp
  from t[where st = st0 and n = 0, THEN conjunct2, THEN conjunct2, THEN conjunct1] a4 r0
  have c4: "requests (fst (inboxForum ?E ''u1'' ''k1'' (''f1'', 0) st0))
      = [GetPostsForInboxForum ''k1'' ''f1'']" by simp
  have b1: "getAllActiveUsers ?W = Inr ([] @ ''u1'' # [])" by (simp add: scenario_defs)
  have b2: "getUserCookie ?W ''u1'' = Inr (Some ''k1'')" by (simp add: scenario_defs)
  have b3: "getUserInbox ?W ''k1'' = Inr ([] @ (''f1'', 1) # [(''f2'', 0)])"
    by (simp add: scenario_defs)
  have b3': "getUserInbox ?W ''k1'' = Inr ([(''f1'', 1)] @ (''f2'', 0) # [])"
    by (simp add: scenario_defs)
  have b4: "inboxForums ?W ''u1'' ''k1'' [] (place (GetUserInbox ''k1'') (foldl (tryInbox ?W) ?S []))
      = (?P, None)" by simp
  have b5: "inboxForums ?W ''u1'' ''k1'' [(''f1'', 1)] ?P = (?P, None)"
    by (simp add: inboxForum_def getUnreadMessagesCount_def Let_def cached_def st0_def
        post_unread_def)
  then have b5': "inboxForums ?W ''u1'' ''k1'' [(''f1'', 1)]
        (place (GetUserInbox ''k1'') (foldl (tryInbox ?W) ?S [])) = (?P, None)" by simp
  have b6: "cache ?P [''u1'', ''f1''] = Some [post_unread]" by (simp add: cached_def st0_def)
  have b7: "cache ?P [''u1'', ''f2''] = None" by (simp add: cached_def st0_def)
  note w1 = inbox_post_fetch_gate[where E = ?W and upre = "[]" and wu = "''u1''" and upost = "[]"
      and wck = "''k1''" and fpre = "[]" and wfo = "''f1''" and wn = 1 and fpost = "[(''f2'', 0)]"
      and ws = ?S and s = ?P and wold = "[post_unread]",
      THEN conjunct2, THEN conjunct2, THEN conjunct2, THEN conjunct1]
  note w2 = inbox_post_fetch_gate[where E = ?W and upre = "[]" and wu = "''u1''" and upost = "[]"
      and wck = "''k1''" and fpre = "[(''f1'', 1)]" and wfo = "''f2''" and wn = 0 and fpost = "[]"
      and ws = ?S and s = ?P,
      THEN conjunct2, THEN conjunct2, THEN conjunct2, THEN conjunct2]
  from w1 b1 b2 b3 b4 b6 a2
  have c5: "fst (watchForInboxMessages ?W ?S)
       = foldl (tryInbox ?W)
          (case inboxForums ?W ''u1'' ''k1'' [(''f2'', 0)] ?P of
             (s'', Some e) \<Rightarrow> catchFetchError e ''u1'' s''
           | (s'', None) \<Rightarrow> s'')
          []"
    by blast
  from w2 b1 b2 b3' b5' b7
  have c6: "\<exists>rest. requests (fst (watchForInboxMessages ?W ?S))
       = requests ?P @ GetPostsForInboxForum ''k1'' ''f2'' # rest"
    by blast
  have c7: "requests (fst (watchForInboxMessages ?W ?S))
       = [GetUserInbox ''k1'', GetPostsForInboxForum ''k1'' ''f2'']"
    by (simp add: scenario_defs watcher_defs post_unread_def post_read_def)
  from a1 a2 a3 a4 c1 c2 c3 c4 b1 b2 b3 b5 b6 b7 c5 c6 c7 show ?thesis by blast
qed

section \<open>A failure at one target and the other targets of the tick\<close>

text \<open>
  What a turn does to the cache, to the disk and to the events depends on the state only
  through these three, so that two ticks that start alike in them end alike in them.
\<close>

lemma foldl_sim:
  assumes "\<And>s s' x. R s s' \<Longrightarrow> R (f s x) (f s' x)" and "R st st'"
  shows "R (foldl f st xs) (foldl f st' xs)"
  using assms(2) by (induction xs arbitrary: st st') (auto intro: assms(1))

lemma emitGrades_sim:
  assumes "sameView st st'"
  shows "sameView (fst (emitGrades E ck crs u fg gs st)) (fst (emitGrades E ck crs u fg gs st'))
     \<and> snd (emitGrades E ck crs u fg gs st) = snd (emitGrades E ck crs u fg gs st')"
  using emitGrades_frame[of E ck crs u fg gs st] emitGrades_frame[of E ck crs u fg gs st']
    emitGrades_events_indep[of st st' E ck crs u fg gs] assms
  by simp

lemma gradesBody_sim:
  assumes "sameView st st'"
  shows "sameView (fst (gradesBody E entry u st)) (fst (gradesBody E entry u st'))
     \<and> snd (gradesBody E entry u st) = snd (gradesBody E entry u st')"
proof -
  have *: "sameView (fst (emitGrades E ck crs u fg gs s)) (fst (emitGrades E ck crs u fg gs s'))
     \<and> snd (emitGrades E ck crs u fg gs s) = snd (emitGrades E ck crs u fg gs s')"
    if "sameView s s'" for ck crs fg gs s s'
    using that by (rule emitGrades_sim)
  show ?thesis
    unfolding gradesBody_def Let_def using assms
    by (auto split: sum.splits option.splits intro!: *[THEN conjunct1, THEN conjunct1]
        *[THEN conjunct1, THEN conjunct2, THEN conjunct1] *[THEN conjunct1, THEN conjunct2, THEN conjunct2]
        *[THEN conjunct2])
qed

lemma tryGrades_sim:
  assumes "sameView st st'"
  shows "sameView (tryGrades E entry st u) (tryGrades E entry st' u)"
  using gradesBody_sim[OF assms, of E entry u]
  by (auto simp: tryGrades_def split: prod.splits option.splits)

lemma gradesCourse_sim:
  "sameView st st' \<Longrightarrow> sameView (gradesCourse E st entry) (gradesCourse E st' entry)"
  unfolding gradesCourse_def
  by (rule foldl_sim[where R = sameView]) (rule tryGrades_sim)

lemma tryGrades_failed_fetch:
  assumes "getUserCookie E u = Inl e
     \<or> (\<exists>ck. getUserCookie E u = Inr (Some ck) \<and> getAllGrades E ck (slugId (snd entry)) = Inl e)"
  shows "sameView (tryGrades E entry st u) st"
  using assms by (auto simp: tryGrades_def gradesBody_def Let_def)

lemma grades_users_without_failed:
  assumes "getUserCookie E u = Inl e
     \<or> (\<exists>ck. getUserCookie E u = Inr (Some ck) \<and> getAllGrades E ck (slugId (snd entry)) = Inl e)"
  shows "sameView (foldl (tryGrades E entry) st (upre @ u # upost))
                  (foldl (tryGrades E entry) st (upre @ upost))"
proof -
  let ?s = "foldl (tryGrades E entry) st upre"
  have "sameView (tryGrades E entry ?s u) ?s" by (rule tryGrades_failed_fetch[OF assms])
  then have "sameView (foldl (tryGrades E entry) (tryGrades E entry ?s u) upost)
                      (foldl (tryGrades E entry) ?s upost)"
    by (rule foldl_sim[where R = sameView, rotated]) (rule tryGrades_sim)
  then show ?thesis by simp
qed

lemma grades_tick_without_failed:
  assumes "getActiveClasses E = Inr (cpre @ entry # cpost)"
    and "getActiveUsersInClass E (fst entry) = upre @ u # upost"
    and "getUserCookie E u = Inl e
     \<or> (\<exists>ck. getUserCookie E u = Inr (Some ck) \<and> getAllGrades E ck (slugId (snd entry)) = Inl e)"
  shows "sameView (fst (watchForGrades E st))
           (foldl (gradesCourse E)
              (foldl (tryGrades E entry) (foldl (gradesCourse E) st cpre) (upre @ upost)) cpost)"
proof -
  let ?s = "foldl (gradesCourse E) st cpre"
  have "sameView (gradesCourse E ?s entry) (foldl (tryGrades E entry) ?s (upre @ upost))"
    unfolding gradesCourse_def assms(2) by (rule grades_users_without_failed[OF assms(3)])
  then have "sameView (foldl (gradesCourse E) (gradesCourse E ?s entry) cpost)
       (foldl (gradesCourse E) (foldl (tryGrades E entry) ?s (upre @ upost)) cpost)"
    by (rule foldl_sim[where R = sameView, rotated]) (rule gradesCourse_sim)
  then show ?thesis using assms(1) by (simp add: watchForGrades_def)
qed

lemma inboxForum_sim:
  assumes "sameView st st'"
  shows "sameView (fst (inboxForum E u ck f st)) (fst (inboxForum E u ck f st'))
     \<and> snd (inboxForum E u ck f st) = snd (inboxForum E u ck f st')"
  using assms
  by (auto simp: inboxForum_def getUnreadMessagesCount_def Let_def split: sum.splits option.splits)

lemma inboxForums_sim:
  assumes "sameView st st'"
  shows "sameView (fst (inboxForums E u ck fs st)) (fst (inboxForums E u ck fs st'))
     \<and> snd (inboxForums E u ck fs st) = snd (inboxForums E u ck fs st')"
  using assms
proof (induction fs arbitrary: st st')
  case Nil
  then show ?case by simp
next
  case (Cons f fs)
  obtain a r where a: "inboxForum E u ck f st = (a, r)" by (cases "inboxForum E u ck f st")
  obtain a' r' where a': "inboxForum E u ck f st' = (a', r')" by (cases "inboxForum E u ck f st'")
  from inboxForum_sim[OF Cons.prems, of E u ck f] a a'
  have s: "sameView a a'" and r: "r = r'" by simp_all
  show ?case
  proof (cases r)
    case None
    then show ?thesis using a a' r Cons.IH[OF s] by simp
  next
    case (Some e)
    then show ?thesis using a a' r s by simp
  qed
qed

lemma inboxBody_sim:
  assumes "sameView st st'"
  shows "sameView (fst (inboxBody E u st)) (fst (inboxBody E u st'))
     \<and> snd (inboxBody E u st) = snd (inboxBody E u st')"
proof -
  have *: "sameView (fst (inboxForums E u ck fs s)) (fst (inboxForums E u ck fs s'))
     \<and> snd (inboxForums E u ck fs s) = snd (inboxForums E u ck fs s')"
    if "sameView s s'" for ck fs s s'
    using that by (rule inboxForums_sim)
  show ?thesis
    unfolding inboxBody_def Let_def using assms
    by (auto split: sum.splits option.splits intro!: *[THEN conjunct1, THEN conjunct1]
        *[THEN conjunct1, THEN conjunct2, THEN conjunct1] *[THEN conjunct1, THEN conjunct2, THEN conjunct2]
        *[THEN conjunct2])
qed

lemma tryInbox_sim:
  assumes "sameView st st'"
  shows "sameView (tryInbox E st u) (tryInbox E st' u)"
  using inboxBody_sim[OF assms, of E u]
  by (auto simp: tryInbox_def split: prod.splits option.splits)

lemma tryInbox_failed_fetch:
  assumes "getUserCookie E u = Inl e
     \<or> (\<exists>ck. getUserCookie E u = Inr (Some ck) \<and> getUserInbox E ck = Inl e)"
  shows "sameView (tryInbox E st u) st"
  using assms by (auto simp: tryInbox_def inboxBody_def Let_def)

lemma inbox_tick_without_failed:
  assumes "getAllActiveUsers E = Inr (upre @ u # upost)"
    and "getUserCookie E u = Inl e
     \<or> (\<exists>ck. getUserCookie E u = Inr (Some ck) \<and> getUserInbox E ck = Inl e)"
  shows "sameView (fst (watchForInboxMessages E st)) (foldl (tryInbox E) st (upre @ upost))"
proof -
  let ?s = "foldl (tryInbox E) st upre"
  have "sameView (tryInbox E ?s u) ?s" by (rule tryInbox_failed_fetch[OF assms(2)])
  then have "sameView (foldl (tryInbox E) (tryInbox E ?s u) upost) (foldl (tryInbox E) ?s upost)"
    by (rule foldl_sim[where R = sameView, rotated]) (rule tryInbox_sim)
  then show ?thesis using assms(1) by (simp add: watchForInboxMessages_def)
qed

lemma getClassAnnouncementsSafe_fst_indep:
  "fst (getClassAnnouncementsSafe E c us st) = fst (getClassAnnouncementsSafe E c us st')"
  by (induction us arbitrary: st st') (auto split: sum.splits option.splits)

lemma tryAnnouncements_sim:
  assumes "sameViewExcept c st st'"
  shows "sameViewExcept c (tryAnnouncements E st entry) (tryAnnouncements E st' entry)"
proof -
  let ?us = "getActiveUsersInClass E (fst entry)"
  have f: "fst (getClassAnnouncementsSafe E (fst entry) ?us st)
      = fst (getClassAnnouncementsSafe E (fst entry) ?us st')"
    by (rule getClassAnnouncementsSafe_fst_indep)
  note fr = getClassAnnouncementsSafe_frame[of E "fst entry" ?us st]
    getClassAnnouncementsSafe_frame[of E "fst entry" ?us st']
  show ?thesis
    unfolding tryAnnouncements_def announcementsBody_def Let_def
    using assms f fr
    by (auto split: option.splits)
qed

lemma tryAnnouncements_failed_fetch:
  assumes "fst (getClassAnnouncementsSafe E c (getActiveUsersInClass E c) st) = None"
  shows "sameViewExcept c (tryAnnouncements E st (c, crs)) st"
  using assms getClassAnnouncementsSafe_frame[of E c "getActiveUsersInClass E c" st]
  by (auto simp: tryAnnouncements_def announcementsBody_def Let_def split: option.splits)

lemma announcements_tick_without_failed:
  assumes "getActiveClasses E = Inr (cpre @ (c, crs) # cpost)"
    and "fst (getClassAnnouncementsSafe E c (getActiveUsersInClass E c) st) = None"
  shows "sameViewExcept c (fst (watchForAnnouncements E st))
            (foldl (tryAnnouncements E) st (cpre @ cpost))"
proof -
  let ?s = "foldl (tryAnnouncements E) st cpre"
  have "fst (getClassAnnouncementsSafe E c (getActiveUsersInClass E c) ?s) = None"
    using assms(2) getClassAnnouncementsSafe_fst_indep[of E c _ ?s st] by simp
  then have "sameViewExcept c (tryAnnouncements E ?s (c, crs)) ?s"
    by (rule tryAnnouncements_failed_fetch)
  then have "sameViewExcept c (foldl (tryAnnouncements E) (tryAnnouncements E ?s (c, crs)) cpost)
      (foldl (tryAnnouncements E) ?s cpost)"
    by (rule foldl_sim[where R = "sameViewExcept c", rotated]) (rule tryAnnouncements_sim)
  then show ?thesis using assms(1) by (simp add: watchForAnnouncements_def)
qed

text \<open>
  Claim C3, as stated, fails for the inbox watcher when the target is one forum of one
  user: the \<open>try\<close> encloses the whole loop over the forums of the user. The user \<open>u1\<close>
  has two forums with one unread post each and nothing is cached; the posts of \<open>f1\<close>
  cannot be fetched, those of \<open>f2\<close> can. The tick places the request for \<open>f1\<close> and
  none for \<open>f2\<close>, whose snapshot stays \<open>null\<close>.
\<close>

theorem inbox_forum_failure_skips_later_forums:
  "getPostsForInboxForum
       (env_inbox [(''f1'', 1), (''f2'', 1)]
          (\<lambda>f. if f = ''f1'' then Inl Failure else Inr [post_unread]))
       ''k1'' ''f2'' = Inr [post_unread]
   \<and> requests (fst (watchForInboxMessages
       (env_inbox [(''f1'', 1), (''f2'', 1)]
          (\<lambda>f. if f = ''f1'' then Inl Failure else Inr [post_unread]))
       st0)) = [GetUserInbox ''k1'', GetPostsForInboxForum ''k1'' ''f1'']
   \<and> cache (fst (watchForInboxMessages
       (env_inbox [(''f1'', 1), (''f2'', 1)]
          (\<lambda>f. if f = ''f1'' then Inl Failure else Inr [post_unread]))
       st0)) [''u1'', ''f2''] = None
   \<and> disk (fst (watchForInboxMessages
       (env_inbox [(''f1'', 1), (''f2'', 1)]
          (\<lambda>f. if f = ''f1'' then Inl Failure else Inr [post_unread]))
       st0)) ''u1/f2.json'' = None"
  by (simp add: scenario_defs watcher_defs)

text \<open>
  Claim C3, amended: within one tick a failure while processing one target (one course
  for announcements, one course-user pair for grades, one user with all the forums of
  that user for inbox messages) never prevents the remaining targets of the tick from
  being processed. Whatever fails elsewhere, the fetch of every course with a user whose
  cookie resolves, of every such course-user pair and of every such user is placed. The
  tick goes through every turn: a value thrown anywhere in the turn of a target is handled
  and the tick ends in the state that the turns of the targets after it reach from the
  state that the handler leaves. In the inbox watcher a value thrown in the turn of one
  forum ends the loop over the forums of that user. A target whose fetch fails (its
  cookie cannot be read, or the fetch throws with it) leaves no trace in what the other
  targets do: the cache, the disk and the events at the end of the tick are those of the
  tick over the other targets alone, so that the snapshots of these are updated and
  persisted and their events emitted just as if the failed target had not been there; for
  the announcements this holds of the disk outside the file of the failed class.
\<close>

theorem target_isolation:
  "(getActiveClasses E = Inr cs \<and> (c, crs) \<in> set cs
      \<and> u \<in> set (getActiveUsersInClass E c) \<and> getUserCookie E u = Inr (Some ck)
     \<longrightarrow> (\<exists>ck'. GetClassAnnouncements ck' c
                   \<in> set (requests (fst (watchForAnnouncements E sa))))
         \<and> GetAllGrades ck (slugId crs) \<in> set (requests (fst (watchForGrades E sg))))
   \<and> (getAllActiveUsers E = Inr us \<and> v \<in> set us \<and> getUserCookie E v = Inr (Some cv)
     \<longrightarrow> GetUserInbox cv \<in> set (requests (fst (watchForInboxMessages E si))))
   \<and> (getActiveClasses E = Inr (acpre @ t # acpost)
     \<longrightarrow> fst (watchForAnnouncements E sb)
           = foldl (tryAnnouncements E)
               (tryAnnouncements E (foldl (tryAnnouncements E) sb acpre) t) acpost)
   \<and> (getActiveClasses E = Inr (gcpre @ gentry # gcpost)
      \<and> getActiveUsersInClass E (fst gentry) = gupre @ w # gupost
      \<and> gradesBody E gentry w (foldl (tryGrades E gentry) (foldl (gradesCourse E) sc gcpre) gupre)
          = (sd, Some e)
     \<longrightarrow> fst (watchForGrades E sc)
           = foldl (gradesCourse E)
               (foldl (tryGrades E gentry) (catchFetchError e w sd) gupost) gcpost)
   \<and> (getAllActiveUsers E = Inr (iupre @ x # iupost)
      \<and> inboxBody E x (foldl (tryInbox E) se iupre) = (sf, Some ex)
     \<longrightarrow> fst (watchForInboxMessages E se)
           = foldl (tryInbox E) (catchFetchError ex x sf) iupost)
   \<and> (inboxForum E y cy f sh = (sk, Some ey)
     \<longrightarrow> inboxForums E y cy (f # fs) sh = (sk, Some ey))
   \<and> (getActiveClasses E = Inr (hcpre @ hentry # hcpost)
      \<and> getActiveUsersInClass E (fst hentry) = hupre @ hu # hupost
      \<and> (getUserCookie E hu = Inl he
          \<or> (\<exists>hck. getUserCookie E hu = Inr (Some hck)
                 \<and> getAllGrades E hck (slugId (snd hentry)) = Inl he))
     \<longrightarrow> sameView (fst (watchForGrades E hz))
           (foldl (gradesCourse E)
              (foldl (tryGrades E hentry) (foldl (gradesCourse E) hz hcpre) (hupre @ hupost))
              hcpost))
   \<and> (getAllActiveUsers E = Inr (jupre @ ju # jupost)
      \<and> (getUserCookie E ju = Inl je
          \<or> (\<exists>jck. getUserCookie E ju = Inr (Some jck) \<and> getUserInbox E jck = Inl je))
     \<longrightarrow> sameView (fst (watchForInboxMessages E jz)) (foldl (tryInbox E) jz (jupre @ jupost)))
   \<and> (getActiveClasses E = Inr (kcpre @ (kc, kcrs) # kcpost)
      \<and> fst (getClassAnnouncementsSafe E kc (getActiveUsersInClass E kc) kz) = None
     \<longrightarrow> sameViewExcept kc (fst (watchForAnnouncements E kz))
           (foldl (tryAnnouncements E) kz (kcpre @ kcpost)))"
proof (intro conjI impI)
  assume h: "getActiveClasses E = Inr cs \<and> (c, crs) \<in> set cs
      \<and> u \<in> set (getActiveUsersInClass E c) \<and> getUserCookie E u = Inr (Some ck)"
  then show "\<exists>ck'. GetClassAnnouncements ck' c
                   \<in> set (requests (fst (watchForAnnouncements E sa)))"
    using announcements_fetch_occurs[of E cs c crs u ck sa] by blast
  from h show "GetAllGrades ck (slugId crs) \<in> set (requests (fst (watchForGrades E sg)))"
    using grades_fetch_occurs[of E cs c crs u ck sg] by blast
next
  assume "getAllActiveUsers E = Inr us \<and> v \<in> set us \<and> getUserCookie E v = Inr (Some cv)"
  then show "GetUserInbox cv \<in> set (requests (fst (watchForInboxMessages E si)))"
    using inbox_fetch_occurs[of E us v cv si] by blast
next
  assume "getActiveClasses E = Inr (acpre @ t # acpost)"
  then show "fst (watchForAnnouncements E sb)
           = foldl (tryAnnouncements E)
               (tryAnnouncements E (foldl (tryAnnouncements E) sb acpre) t) acpost"
    by (simp add: watchForAnnouncements_def)
next
  assume "getActiveClasses E = Inr (gcpre @ gentry # gcpost)
      \<and> getActiveUsersInClass E (fst gentry) = gupre @ w # gupost
      \<and> gradesBody E gentry w (foldl (tryGrades E gentry) (foldl (gradesCourse E) sc gcpre) gupre)
          = (sd, Some e)"
  then show "fst (watchForGrades E sc)
           = foldl (gradesCourse E)
               (foldl (tryGrades E gentry) (catchFetchError e w sd) gupost) gcpost"
    by (simp add: watchForGrades_def gradesCourse_def tryGrades_def)
next
  assume "getAllActiveUsers E = Inr (iupre @ x # iupost)
      \<and> inboxBody E x (foldl (tryInbox E) se iupre) = (sf, Some ex)"
  then show "fst (watchForInboxMessages E se)
           = foldl (tryInbox E) (catchFetchError ex x sf) iupost"
    by (simp add: watchForInboxMessages_def tryInbox_def)
next
  assume "inboxForum E y cy f sh = (sk, Some ey)"
  then show "inboxForums E y cy (f # fs) sh = (sk, Some ey)"
    by simp
next
  assume h: "getActiveClasses E = Inr (hcpre @ hentry # hcpost)
      \<and> getActiveUsersInClass E (fst hentry) = hupre @ hu # hupost
      \<and> (getUserCookie E hu = Inl he
          \<or> (\<exists>hck. getUserCookie E hu = Inr (Some hck)
                 \<and> getAllGrades E hck (slugId (snd hentry)) = Inl he))"
  have r: "sameView (fst (watchForGrades E hz))
           (foldl (gradesCourse E)
              (foldl (tryGrades E hentry) (foldl (gradesCourse E) hz hcpre) (hupre @ hupost))
              hcpost)"
    using grades_tick_without_failed[of E hcpre hentry hcpost hupre hu hupost he hz] h by blast
  from r show "cache (fst (watchForGrades E hz))
      = cache (foldl (gradesCourse E)
              (foldl (tryGrades E hentry) (foldl (gradesCourse E) hz hcpre) (hupre @ hupost))
              hcpost)" by blast
  from r show "disk (fst (watchForGrades E hz))
      = disk (foldl (gradesCourse E)
              (foldl (tryGrades E hentry) (foldl (gradesCourse E) hz hcpre) (hupre @ hupost))
              hcpost)" by blast
  from r show "events (fst (watchForGrades E hz))
      = events (foldl (gradesCourse E)
              (foldl (tryGrades E hentry) (foldl (gradesCourse E) hz hcpre) (hupre @ hupost))
              hcpost)" by blast
next
  assume h: "getAllActiveUsers E = Inr (jupre @ ju # jupost)
      \<and> (getUserCookie E ju = Inl je
          \<or> (\<exists>jck. getUserCookie E ju = Inr (Some jck) \<and> getUserInbox E jck = Inl je))"
  have r: "sameView (fst (watchForInboxMessages E jz)) (foldl (tryInbox E) jz (jupre @ jupost))"
    using inbox_tick_without_failed[of E jupre ju jupost je jz] h by blast
  from r show "cache (fst (watchForInboxMessages E jz))
      = cache (foldl (tryInbox E) jz (jupre @ jupost))" by blast
  from r show "disk (fst (watchForInboxMessages E jz))
      = disk (foldl (tryInbox E) jz (jupre @ jupost))" by blast
  from r show "events (fst (watchForInboxMessages E jz))
      = events (foldl (tryInbox E) jz (jupre @ jupost))" by blast
next
  assume h: "getActiveClasses E = Inr (kcpre @ (kc, kcrs) # kcpost)
      \<and> fst (getClassAnnouncementsSafe E kc (getActiveUsersInClass E kc) kz) = None"
  have r: "sameViewExcept kc (fst (watchForAnnouncements E kz))
           (foldl (tryAnnouncements E) kz (kcpre @ kcpost))"
    by (rule announcements_tick_without_failed[OF h[THEN conjunct1] h[THEN conjunct2]])
  from r show "cache (fst (watchForAnnouncements E kz))
      = cache (foldl (tryAnnouncements E) kz (kcpre @ kcpost))" by blast
  from r show "events (fst (watchForAnnouncements E kz))
      = events (foldl (tryAnnouncements E) kz (kcpre @ kcpost))" by blast
  from r show "\<forall>p. p \<noteq> kc \<longrightarrow> disk (fst (watchForAnnouncements E kz)) p
      = disk (foldl (tryAnnouncements E) kz (kcpre @ kcpost)) p" by blast
qed

text \<open>
  Two classes, each with one user: every fetch with the cookie of the first user fails,
  and the second class and the second user are processed all the same. With an empty
  snapshot cached for the second target, each tick ends as the tick over the second target
  alone: the first user of the grades watcher is reported, and the snapshot of the second
  target is cached and persisted and its event emitted.
\<close>

theorem target_isolation_witness:
  "getActiveClasses env_mixed = Inr [(''c1'', cs101), (''c2'', cs102)]
   \<and> (''c2'', cs102) \<in> set [(''c1'', cs101), (''c2'', cs102)]
   \<and> ''u2'' \<in> set (getActiveUsersInClass env_mixed ''c2'')
   \<and> getUserCookie env_mixed ''u2'' = Inr (Some ''k2'')
   \<and> (\<exists>ck'. GetClassAnnouncements ck' ''c2''
              \<in> set (requests (fst (watchForAnnouncements env_mixed (cached [''c2''] [])))))
   \<and> GetAllGrades ''k2'' (slugId cs102)
        \<in> set (requests (fst (watchForGrades env_mixed (cached [''c2'', ''u2''] []))))
   \<and> getAllActiveUsers env_mixed = Inr [''u1'', ''u2'']
   \<and> ''u2'' \<in> set [''u1'', ''u2'']
   \<and> GetUserInbox ''k2''
        \<in> set (requests (fst (watchForInboxMessages env_mixed (cached [''u2'', ''f1''] []))))
   \<and> getActiveClasses env_mixed = Inr ([] @ (''c1'', cs101) # [(''c2'', cs102)])
   \<and> fst (watchForAnnouncements env_mixed (cached [''c2''] []))
       = foldl (tryAnnouncements env_mixed)
           (tryAnnouncements env_mixed
              (foldl (tryAnnouncements env_mixed) (cached [''c2''] []) []) (''c1'', cs101))
           [(''c2'', cs102)]
   \<and> getActiveUsersInClass env_mixed (fst (''c1'', cs101)) = [] @ ''u1'' # []
   \<and> gradesBody env_mixed (''c1'', cs101) ''u1''
         (foldl (tryGrades env_mixed (''c1'', cs101))
            (foldl (gradesCourse env_mixed) (cached [''c2'', ''u2''] []) []) [])
       = (place (GetAllGrades ''k1'' ''cs101'') (cached [''c2'', ''u2''] []), Some Unauthorized)
   \<and> fst (watchForGrades env_mixed (cached [''c2'', ''u2''] []))
       = foldl (gradesCourse env_mixed)
           (foldl (tryGrades env_mixed (''c1'', cs101))
              (catchFetchError Unauthorized ''u1''
                 (place (GetAllGrades ''k1'' ''cs101'') (cached [''c2'', ''u2''] []))) [])
           [(''c2'', cs102)]
   \<and> getAllActiveUsers env_mixed = Inr ([] @ ''u1'' # [''u2''])
   \<and> inboxBody env_mixed ''u1'' (foldl (tryInbox env_mixed) (cached [''u2'', ''f1''] []) [])
       = (place (GetUserInbox ''k1'') (cached [''u2'', ''f1''] []), Some Failure)
   \<and> fst (watchForInboxMessages env_mixed (cached [''u2'', ''f1''] []))
       = foldl (tryInbox env_mixed)
           (catchFetchError Failure ''u1''
              (place (GetUserInbox ''k1'') (cached [''u2'', ''f1''] []))) [''u2'']
   \<and> inboxForum (env_inbox [(''f1'', 1), (''f2'', 1)]
          (\<lambda>f. if f = ''f1'' then Inl Failure else Inr [post_unread])) ''u1'' ''k1'' (''f1'', 1) st0
       = (place (GetPostsForInboxForum ''k1'' ''f1'') st0, Some Failure)
   \<and> inboxForums (env_inbox [(''f1'', 1), (''f2'', 1)]
          (\<lambda>f. if f = ''f1'' then Inl Failure else Inr [post_unread])) ''u1'' ''k1''
          [(''f1'', 1), (''f2'', 1)] st0
       = (place (GetPostsForInboxForum ''k1'' ''f1'') st0, Some Failure)
   \<and> (\<exists>hck. getUserCookie env_mixed ''u1'' = Inr (Some hck)
          \<and> getAllGrades env_mixed hck (slugId (snd (''c1'', cs101))) = Inl Unauthorized)
   \<and> sameView (fst (watchForGrades env_mixed (cached [''c2'', ''u2''] [])))
        (foldl (gradesCourse env_mixed)
           (foldl (tryGrades env_mixed (''c1'', cs101))
              (foldl (gradesCourse env_mixed) (cached [''c2'', ''u2''] []) []) ([] @ []))
           [(''c2'', cs102)])
   \<and> (\<exists>jck. getUserCookie env_mixed ''u1'' = Inr (Some jck)
          \<and> getUserInbox env_mixed jck = Inl Failure)
   \<and> sameView (fst (watchForInboxMessages env_mixed (cached [''u2'', ''f1''] [])))
        (foldl (tryInbox env_mixed) (cached [''u2'', ''f1''] []) ([] @ [''u2'']))
   \<and> fst (getClassAnnouncementsSafe env_mixed ''c1'' (getActiveUsersInClass env_mixed ''c1'')
          (cached [''c2''] [])) = None
   \<and> cache (fst (watchForAnnouncements env_mixed (cached [''c2''] [])))
       = cache (foldl (tryAnnouncements env_mixed) (cached [''c2''] []) ([] @ [(''c2'', cs102)]))
   \<and> events (fst (watchForAnnouncements env_mixed (cached [''c2''] [])))
       = events (foldl (tryAnnouncements env_mixed) (cached [''c2''] []) ([] @ [(''c2'', cs102)]))
   \<and> disk (fst (watchForAnnouncements env_mixed (cached [''c2''] []))) ''c2''
       = disk (foldl (tryAnnouncements env_mixed) (cached [''c2''] []) ([] @ [(''c2'', cs102)]))
           ''c2''
   \<and> reports (fst (watchForGrades env_mixed (cached [''c2'', ''u2''] []))) = [''u1'']
   \<and> events (fst (watchForGrades env_mixed (cached [''c2'', ''u2''] [])))
       = [GradeEvent ''well done'' cs102 ''A'' ''u2'']
   \<and> cache (fst (watchForGrades env_mixed (cached [''c2'', ''u2''] []))) [''c2'', ''u2'']
       = Some [grade1]
   \<and> disk (fst (watchForGrades env_mixed (cached [''c2'', ''u2''] []))) ''c2/u2.json''
       = Some (Some [grade1])
   \<and> events (fst (watchForInboxMessages env_mixed (cached [''u2'', ''f1''] [])))
       = [InboxMessageEvent post_unread ''u2'']
   \<and> cache (fst (watchForInboxMessages env_mixed (cached [''u2'', ''f1''] []))) [''u2'', ''f1'']
       = Some [post_unread]
   \<and> disk (fst (watchForInboxMessages env_mixed (cached [''u2'', ''f1''] []))) ''u2/f1.json''
       = Some (Some [post_unread])
   \<and> events (fst (watchForAnnouncements env_mixed (cached [''c2''] [])))
       = [AnnouncementEvent announcement_fresh]
   \<and> cache (fst (watchForAnnouncements env_mixed (cached [''c2''] []))) [''c2'']
       = Some [announcement_fresh]
   \<and> disk (fst (watchForAnnouncements env_mixed (cached [''c2''] []))) ''c2''
       = Some (Some [announcement_fresh])"
proof -
  let ?F = "env_inbox [(''f1'', 1), (''f2'', 1)]
          (\<lambda>f. if f = ''f1'' then Inl Failure else Inr [post_unread])"
  let ?A = "cached [''c2''] [] :: announcement state"
  let ?G = "cached [''c2'', ''u2''] [] :: grade state"
  let ?I = "cached [''u2'', ''f1''] [] :: post state"
  have a: "getActiveClasses env_mixed = Inr [(''c1'', cs101), (''c2'', cs102)]
      \<and> (''c2'', cs102) \<in> set [(''c1'', cs101), (''c2'', cs102)]
      \<and> ''u2'' \<in> set (getActiveUsersInClass env_mixed ''c2'')
      \<and> getUserCookie env_mixed ''u2'' = Inr (Some ''k2'')"
    by (simp add: scenario_defs)
  have a': "getActiveClasses env_mixed = Inr ([] @ (''c1'', cs101) # [(''c2'', cs102)])"
    by (simp add: scenario_defs)
  have a'': "getActiveUsersInClass env_mixed (fst (''c1'', cs101)) = [] @ ''u1'' # []"
    by (simp add: scenario_defs)
  have b: "getAllActiveUsers env_mixed = Inr [''u1'', ''u2''] \<and> ''u2'' \<in> set [''u1'', ''u2'']
      \<and> getUserCookie env_mixed ''u2'' = Inr (Some ''k2'')"
    by (simp add: scenario_defs)
  have b': "getAllActiveUsers env_mixed = Inr ([] @ ''u1'' # [''u2''])"
    by (simp add: scenario_defs)
  have g: "gradesBody env_mixed (''c1'', cs101) ''u1''
         (foldl (tryGrades env_mixed (''c1'', cs101)) (foldl (gradesCourse env_mixed) ?G []) [])
       = (place (GetAllGrades ''k1'' ''cs101'') ?G, Some Unauthorized)"
    by (simp add: scenario_defs watcher_defs)
  have i: "inboxBody env_mixed ''u1'' (foldl (tryInbox env_mixed) ?I [])
       = (place (GetUserInbox ''k1'') ?I, Some Failure)"
    by (simp add: scenario_defs watcher_defs)
  have f: "inboxForum ?F ''u1'' ''k1'' (''f1'', 1) st0
       = (place (GetPostsForInboxForum ''k1'' ''f1'') st0, Some Failure)"
    by (simp add: scenario_defs watcher_defs)
  have hg: "\<exists>hck. getUserCookie env_mixed ''u1'' = Inr (Some hck)
          \<and> getAllGrades env_mixed hck (slugId (snd (''c1'', cs101))) = Inl Unauthorized"
    by (simp add: scenario_defs)
  have hi: "\<exists>jck. getUserCookie env_mixed ''u1'' = Inr (Some jck)
          \<and> getUserInbox env_mixed jck = Inl Failure"
    by (simp add: scenario_defs)
  have ha: "fst (getClassAnnouncementsSafe env_mixed ''c1'' (getActiveUsersInClass env_mixed ''c1'')
          ?A) = None"
    by (simp add: scenario_defs)
  have r: "reports (fst (watchForGrades env_mixed ?G)) = [''u1'']"
    by (simp add: scenario_defs watcher_defs grade1_def locateDifferenceInArrays_def)
  have eg: "events (fst (watchForGrades env_mixed ?G)) = [GradeEvent ''well done'' cs102 ''A'' ''u2'']"
    by (simp add: scenario_defs watcher_defs grade1_def locateDifferenceInArrays_def)
  have kg: "cache (fst (watchForGrades env_mixed ?G)) [''c2'', ''u2''] = Some [grade1]"
    by (simp add: scenario_defs watcher_defs grade1_def locateDifferenceInArrays_def
        emitGrades_frame)
  have dg: "disk (fst (watchForGrades env_mixed ?G)) ''c2/u2.json'' = Some (Some [grade1])"
    by (simp add: scenario_defs watcher_defs grade1_def locateDifferenceInArrays_def
        emitGrades_frame)
  have ei: "events (fst (watchForInboxMessages env_mixed ?I)) = [InboxMessageEvent post_unread ''u2'']"
    by (simp add: scenario_defs watcher_defs post_unread_def locateDifferenceInArrays_def)
  have ki: "cache (fst (watchForInboxMessages env_mixed ?I)) [''u2'', ''f1''] = Some [post_unread]"
    by (simp add: scenario_defs watcher_defs post_unread_def locateDifferenceInArrays_def)
  have di: "disk (fst (watchForInboxMessages env_mixed ?I)) ''u2/f1.json''
       = Some (Some [post_unread])"
    by (simp add: scenario_defs watcher_defs post_unread_def locateDifferenceInArrays_def)
  have ea: "events (fst (watchForAnnouncements env_mixed ?A)) = [AnnouncementEvent announcement_fresh]"
    by (simp add: scenario_defs watcher_defs announcement_fresh_def locateDifferenceInArrays_def
        isRecentAnnouncement_def)
  have ka: "cache (fst (watchForAnnouncements env_mixed ?A)) [''c2''] = Some [announcement_fresh]"
    by (simp add: scenario_defs watcher_defs announcement_fresh_def locateDifferenceInArrays_def)
  have da: "disk (fst (watchForAnnouncements env_mixed ?A)) ''c2'' = Some (Some [announcement_fresh])"
    by (simp add: scenario_defs watcher_defs announcement_fresh_def locateDifferenceInArrays_def)
  note t1 = target_isolation[where E = env_mixed and cs = "[(''c1'', cs101), (''c2'', cs102)]"
      and c = "''c2''" and crs = cs102 and u = "''u2''" and ck = "''k2''" and sa = ?A
      and sg = ?G and us = "[''u1'', ''u2'']" and v = "''u2''" and cv = "''k2''" and si = ?I
      and acpre = "[]" and t = "(''c1'', cs101)" and acpost = "[(''c2'', cs102)]" and sb = ?A
      and gcpre = "[]" and gentry = "(''c1'', cs101)" and gcpost = "[(''c2'', cs102)]"
      and gupre = "[]" and w = "''u1''" and gupost = "[]" and sc = ?G
      and sd = "place (GetAllGrades ''k1'' ''cs101'') ?G" and e = Unauthorized
      and iupre = "[]" and x = "''u1''" and iupost = "[''u2'']" and se = ?I
      and sf = "place (GetUserInbox ''k1'') ?I" and ex = Failure
      and hcpre = "[]" and hentry = "(''c1'', cs101)" and hcpost = "[(''c2'', cs102)]"
      and hupre = "[]" and hu = "''u1''" and hupost = "[]" and he = Unauthorized and hz = ?G
      and jupre = "[]" and ju = "''u1''" and jupost = "[''u2'']" and je = Failure and jz = ?I
      and kcpre = "[]" and kc = "''c1''" and kcrs = cs101 and kcpost = "[(''c2'', cs102)]"
      and kz = ?A]
  note t2 = target_isolation[where E = ?F and y = "''u1''" and cy = "''k1''"
      and f = "(''f1'', 1)" and sh = st0 and sk = "place (GetPostsForInboxForum ''k1'' ''f1'') st0"
      and ey = Failure and fs = "[(''f2'', 1)]"]
  note rest = conjunct2
  from t1[THEN conjunct1] a have c1: "\<exists>ck'. GetClassAnnouncements ck' ''c2''
              \<in> set (requests (fst (watchForAnnouncements env_mixed ?A)))"
    and c2: "GetAllGrades ''k2'' (slugId cs102)
              \<in> set (requests (fst (watchForGrades env_mixed ?G)))"
    by blast+
  from t1[THEN rest, THEN conjunct1] b have c3: "GetUserInbox ''k2''
              \<in> set (requests (fst (watchForInboxMessages env_mixed ?I)))"
    by blast
  from t1[THEN rest, THEN rest, THEN conjunct1] a'
  have c4: "fst (watchForAnnouncements env_mixed ?A)
       = foldl (tryAnnouncements env_mixed)
           (tryAnnouncements env_mixed (foldl (tryAnnouncements env_mixed) ?A []) (''c1'', cs101))
           [(''c2'', cs102)]"
    by blast
  from t1[THEN rest, THEN rest, THEN rest, THEN conjunct1] a' a'' g
  have c5: "fst (watchForGrades env_mixed ?G)
       = foldl (gradesCourse env_mixed)
           (foldl (tryGrades env_mixed (''c1'', cs101))
              (catchFetchError Unauthorized ''u1'' (place (GetAllGrades ''k1'' ''cs101'') ?G)) [])
           [(''c2'', cs102)]"
    by blast
  from t1[THEN rest, THEN rest, THEN rest, THEN rest, THEN conjunct1] b' i
  have c6: "fst (watchForInboxMessages env_mixed ?I)
       = foldl (tryInbox env_mixed)
           (catchFetchError Failure ''u1'' (place (GetUserInbox ''k1'') ?I)) [''u2'']"
    by blast
  from t2[THEN rest, THEN rest, THEN rest, THEN rest, THEN rest, THEN conjunct1] f
  have c7: "inboxForums ?F ''u1'' ''k1'' [(''f1'', 1), (''f2'', 1)] st0
       = (place (GetPostsForInboxForum ''k1'' ''f1'') st0, Some Failure)"
    by blast
  from t1[THEN rest, THEN rest, THEN rest, THEN rest, THEN rest, THEN rest, THEN conjunct1]
    a' a'' hg
  have c8: "sameView (fst (watchForGrades env_mixed ?G))
        (foldl (gradesCourse env_mixed)
           (foldl (tryGrades env_mixed (''c1'', cs101))
              (foldl (gradesCourse env_mixed) ?G []) ([] @ []))
           [(''c2'', cs102)])"
    by blast
  from t1[THEN rest, THEN rest, THEN rest, THEN rest, THEN rest, THEN rest, THEN rest,
      THEN conjunct1] b' hi
  have c9: "sameView (fst (watchForInboxMessages env_mixed ?I))
        (foldl (tryInbox env_mixed) ?I ([] @ [''u2'']))"
    by blast
  from t1[THEN rest, THEN rest, THEN rest, THEN rest, THEN rest, THEN rest, THEN rest,
      THEN rest] a' ha
  have c10: "sameViewExcept ''c1'' (fst (watchForAnnouncements env_mixed ?A))
        (foldl (tryAnnouncements env_mixed) ?A ([] @ [(''c2'', cs102)]))"
    by blast
  have c11: "cache (fst (watchForAnnouncements env_mixed ?A))
       = cache (foldl (tryAnnouncements env_mixed) ?A ([] @ [(''c2'', cs102)]))"
    and c12: "events (fst (watchForAnnouncements env_mixed ?A))
       = events (foldl (tryAnnouncements env_mixed) ?A ([] @ [(''c2'', cs102)]))"
    using c10 by blast+
  have c13: "disk (fst (watchForAnnouncements env_mixed ?A)) ''c2''
       = disk (foldl (tryAnnouncements env_mixed) ?A ([] @ [(''c2'', cs102)])) ''c2''"
    using c10 by simp
  show ?thesis
    apply (intro conjI)
    using a a' a'' b b' g i f hg hi ha r eg kg dg ei ki di ea ka da
      c1 c2 c3 c4 c5 c6 c7 c8 c9 c11 c12 c13
    apply blast+
    done
qed

section \<open>A failed fetch\<close>

lemma getClassAnnouncementsSafe_reports_mono:
  "set (reports st) \<subseteq> set (reports (snd (getClassAnnouncementsSafe E c us st)))"
proof (induction us arbitrary: st)
  case Nil
  then show ?case by simp
next
  case (Cons u us)
  show ?case
  proof (cases "getUserCookie E u")
    case (Inl e)
    then show ?thesis using Cons.IH[of "catchFetchError e u st"] by (auto split: if_splits)
  next
    case (Inr cko)
    show ?thesis
    proof (cases cko)
      case None
      then show ?thesis using Inr Cons.IH[of st] by simp
    next
      case (Some ck)
      show ?thesis
      proof (cases "getClassAnnouncements E ck c")
        case (Inl e)
        then show ?thesis
          using Inr Some
            Cons.IH[of "catchFetchError e u (place (GetClassAnnouncements ck c) st)"]
          by (auto split: if_splits)
      next
        case (Inr anns)
        then show ?thesis using \<open>getUserCookie E u = Inr cko\<close> Some by auto
      qed
    qed
  qed
qed

text \<open>
  The user of every cookie for which the fetch of the announcements is unauthorized is
  reported, when no user yields a result.
\<close>

lemma getClassAnnouncementsSafe_reports:
  "u \<in> set us \<Longrightarrow> getUserCookie E u = Inr (Some ck) \<Longrightarrow>
   getClassAnnouncements E ck c = Inl Unauthorized \<Longrightarrow>
   fst (getClassAnnouncementsSafe E c us st) = None \<Longrightarrow>
   u \<in> set (reports (snd (getClassAnnouncementsSafe E c us st)))"
proof (induction us arbitrary: st)
  case Nil
  then show ?case by simp
next
  case (Cons v us)
  show ?case
  proof (cases "u = v")
    case True
    have "u \<in> set (reports (catchFetchError Unauthorized u
              (place (GetClassAnnouncements ck c) st)))"
      by simp
    then have "u \<in> set (reports (snd (getClassAnnouncementsSafe E c us
              (catchFetchError Unauthorized u (place (GetClassAnnouncements ck c) st)))))"
      using getClassAnnouncementsSafe_reports_mono by blast
    then show ?thesis using True Cons.prems by simp
  next
    case False
    with Cons.prems have u: "u \<in> set us" by simp
    show ?thesis
    proof (cases "getUserCookie E v")
      case (Inl e)
      then show ?thesis
        using Cons.IH[OF u Cons.prems(2,3), of "catchFetchError e v st"] Cons.prems(4) by simp
    next
      case (Inr cko)
      show ?thesis
      proof (cases cko)
        case None
        then show ?thesis
          using Inr Cons.IH[OF u Cons.prems(2,3), of st] Cons.prems(4) by simp
      next
        case (Some ck1)
        show ?thesis
        proof (cases "getClassAnnouncements E ck1 c")
          case (Inl e)
          then show ?thesis
            using Inr Some Cons.prems(4)
              Cons.IH[OF u Cons.prems(2,3),
                of "catchFetchError e v (place (GetClassAnnouncements ck1 c) st)"]
            by simp
        next
          case (Inr anns)
          then show ?thesis using \<open>getUserCookie E v = Inr cko\<close> Some Cons.prems(4) by simp
        qed
      qed
    qed
  qed
qed

text \<open>
  What holds of claim C1. A failed fetch leaves the cache, the disk and the events as
  they were in the grades watcher and in the inbox watcher, with the user reported when
  the failure is a 401, and in the announcements watcher when a snapshot is cached for
  the class.
\<close>

lemma failed_fetch_keeps_snapshot:
  "(cache st [c] = Some old
      \<and> fst (getClassAnnouncementsSafe E c (getActiveUsersInClass E c) st) = None
     \<longrightarrow> cache (tryAnnouncements E st (c, crs)) = cache st
         \<and> disk (tryAnnouncements E st (c, crs)) = disk st
         \<and> events (tryAnnouncements E st (c, crs)) = events st)
   \<and> (getUserCookie E u = Inr (Some ck) \<and> getAllGrades E ck (slugId crs) = Inl e
     \<longrightarrow> cache (tryGrades E (c, crs) sg u) = cache sg
         \<and> disk (tryGrades E (c, crs) sg u) = disk sg
         \<and> events (tryGrades E (c, crs) sg u) = events sg
         \<and> reports (tryGrades E (c, crs) sg u)
             = (if e = Unauthorized then reports sg @ [u] else reports sg))
   \<and> (getPostsForInboxForum E ck f = Inl e
     \<longrightarrow> cache (fst (inboxForum E u ck (f, n) si)) = cache si
         \<and> disk (fst (inboxForum E u ck (f, n) si)) = disk si
         \<and> events (fst (inboxForum E u ck (f, n) si)) = events si)
   \<and> (getUserCookie E u = Inr (Some ck) \<and> getUserInbox E ck = Inl e
     \<longrightarrow> cache (tryInbox E si u) = cache si
         \<and> disk (tryInbox E si u) = disk si
         \<and> events (tryInbox E si u) = events si
         \<and> reports (tryInbox E si u)
             = (if e = Unauthorized then reports si @ [u] else reports si))"
proof (intro conjI impI)
  assume h: "cache st [c] = Some old
      \<and> fst (getClassAnnouncementsSafe E c (getActiveUsersInClass E c) st) = None"
  let ?r = "getClassAnnouncementsSafe E c (getActiveUsersInClass E c) st"
  have fr: "cache (snd ?r) = cache st" "disk (snd ?r) = disk st" "events (snd ?r) = events st"
    using getClassAnnouncementsSafe_frame[of E c "getActiveUsersInClass E c" st] by simp_all
  have triv: "(cache st)([c] := Some old) = cache st" using h by (simp add: fun_upd_idem)
  have body: "tryAnnouncements E st (c, crs)
      = (if getActiveUsersInClass E c = [] then st else cache_set [c] (Some old) (snd ?r))"
    using h by (simp add: tryAnnouncements_def announcementsBody_def Let_def)
  show "cache (tryAnnouncements E st (c, crs)) = cache st" by (simp add: body fr triv)
  show "disk (tryAnnouncements E st (c, crs)) = disk st" by (simp add: body fr)
  show "events (tryAnnouncements E st (c, crs)) = events st" by (simp add: body fr)
next
  assume h: "getUserCookie E u = Inr (Some ck) \<and> getAllGrades E ck (slugId crs) = Inl e"
  have body: "tryGrades E (c, crs) sg u
      = catchFetchError e u (place (GetAllGrades ck (slugId crs)) sg)"
    using h by (simp add: tryGrades_def gradesBody_def Let_def)
  show "cache (tryGrades E (c, crs) sg u) = cache sg" by (simp add: body)
  show "disk (tryGrades E (c, crs) sg u) = disk sg" by (simp add: body)
  show "events (tryGrades E (c, crs) sg u) = events sg" by (simp add: body)
  show "reports (tryGrades E (c, crs) sg u)
             = (if e = Unauthorized then reports sg @ [u] else reports sg)"
    by (simp add: body)
next
  assume h: "getPostsForInboxForum E ck f = Inl e"
  then show "cache (fst (inboxForum E u ck (f, n) si)) = cache si"
    by (simp add: inboxForum_def Let_def)
  from h show "disk (fst (inboxForum E u ck (f, n) si)) = disk si"
    by (simp add: inboxForum_def Let_def)
  from h show "events (fst (inboxForum E u ck (f, n) si)) = events si"
    by (simp add: inboxForum_def Let_def)
next
  assume h: "getUserCookie E u = Inr (Some ck) \<and> getUserInbox E ck = Inl e"
  have body: "tryInbox E si u = catchFetchError e u (place (GetUserInbox ck) si)"
    using h by (simp add: tryInbox_def inboxBody_def Let_def)
  show "cache (tryInbox E si u) = cache si" by (simp add: body)
  show "disk (tryInbox E si u) = disk si" by (simp add: body)
  show "events (tryInbox E si u) = events si" by (simp add: body)
  show "reports (tryInbox E si u)
             = (if e = Unauthorized then reports si @ [u] else reports si)"
    by (simp add: body)
qed

text \<open>
  Where claim C1 fails: with no snapshot cached for the class, a fetch that yields no
  result falls back to the old value \<open>null\<close>, and the branch for a first fetch writes
  it to the file of the class.
\<close>

lemma failed_first_fetch_disk:
  "cache st [c] = None \<Longrightarrow> getActiveUsersInClass E c \<noteq> [] \<Longrightarrow>
   fst (getClassAnnouncementsSafe E c (getActiveUsersInClass E c) st) = None \<Longrightarrow>
   disk (tryAnnouncements E st (c, crs)) c = Some None"
  by (simp add: tryAnnouncements_def announcementsBody_def Let_def)

text \<open>
  Claim C1 at its failing input: the class \<open>c1\<close> has no cached snapshot and no cache
  file, and the fetch with the cookie of its only user \<open>u1\<close> is unauthorized. After the
  tick the user is reported and no event is emitted, but a file for \<open>c1\<close> has been
  written, holding \<open>null\<close>: the persisted form is not as it was before the tick.
\<close>

theorem failed_first_fetch_writes_null:
  "cache (st0 :: announcement state) [''c1''] = None
   \<and> disk (st0 :: announcement state) ''c1'' = None
   \<and> getClassAnnouncements (env_announcements (Inl Unauthorized)) ''k1'' ''c1'' = Inl Unauthorized
   \<and> cache (fst (watchForAnnouncements (env_announcements (Inl Unauthorized)) st0)) [''c1''] = None
   \<and> disk (fst (watchForAnnouncements (env_announcements (Inl Unauthorized)) st0)) ''c1''
       = Some None
   \<and> reports (fst (watchForAnnouncements (env_announcements (Inl Unauthorized)) st0)) = [''u1'']
   \<and> events (fst (watchForAnnouncements (env_announcements (Inl Unauthorized)) st0)) = []"
  by (simp add: scenario_defs watcher_defs)

end
